theory Spec2Isabelle
  imports Complex_Main
begin

section \<open>JSON values and Python dictionaries\<close>

text \<open>
  The program works on what \<^verbatim>\<open>json.load\<close> returns: a tree of dictionaries, lists,
  strings, numbers, booleans and \<^verbatim>\<open>None\<close>. A Python \<^verbatim>\<open>str\<close> is kept as the bytes
  of its UTF-8 encoding (the source file and every file the program opens are UTF-8), so
  an ASCII key is an ordinary string literal and a Japanese display name is the list of
  its bytes. The program never computes with a number: a float is kept as the rational
  its decimal literal denotes. A dictionary is an association list in insertion order,
  read at the first pair with the key and updated the way Python does: in place when the
  key is there, appended at the end when it is not.
\<close>

datatype json =
    JNull
  | JBool bool
  | JInt int
  | JFloat rat
  | JStr string
  | JArr "json list"
  | JObj "(string \<times> json) list"

type_synonym dict = "(string \<times> json) list"

fun dict_set :: "'k \<Rightarrow> 'v \<Rightarrow> ('k \<times> 'v) list \<Rightarrow> ('k \<times> 'v) list" where
  "dict_set k v [] = [(k, v)]"
| "dict_set k v ((k', v') # d) =
     (if k' = k then (k, v) # d else (k', v') # dict_set k v d)"

text \<open>\<^verbatim>\<open>s.startswith(p)\<close>, \<^verbatim>\<open>s.endswith(p)\<close> and \<^verbatim>\<open>p in s\<close> on strings.\<close>

fun startswith :: "string \<Rightarrow> string \<Rightarrow> bool" where
  "startswith s [] = True"
| "startswith [] (p # ps) = False"
| "startswith (c # cs) (p # ps) = (c = p \<and> startswith cs ps)"

definition endswith :: "string \<Rightarrow> string \<Rightarrow> bool" where
  "endswith s p = startswith (rev s) (rev p)"

fun str_contains :: "string \<Rightarrow> string \<Rightarrow> bool" where
  "str_contains [] p = (p = [])"
| "str_contains (c # cs) p = (startswith (c # cs) p \<or> str_contains cs p)"

datatype os_errno = ENOENT | EISDIR | ENOTDIR | EEXIST

text \<open>
  The exceptions the three operations can end with. \<open>UnsupportedFormat\<close> is the
  \<^verbatim>\<open>ValueError\<close> raised by \<^verbatim>\<open>load_model\<close>, \<open>MissingConfig\<close> the
  \<^verbatim>\<open>FileNotFoundError\<close> raised by \<^verbatim>\<open>_load_aivis_model\<close>; the others are raised
  by the interpreter and the libraries.
\<close>

datatype error =
    UnsupportedFormat
  | MissingConfig
  | KeyError string
  | TypeError
  | AttributeError
  | JSONDecodeError
  | BadZipFile
  | OSError os_errno

section \<open>The style catalog\<close>

text \<open>\<^verbatim>\<open>self.styles\<close>, in the order the dictionary literal gives.\<close>

definition self_styles :: "(string \<times> string) list" where
  "self_styles =
    [(''normal'',
        [CHR 0xE3, CHR 0x83, CHR 0x8E, CHR 0xE3, CHR 0x83, CHR 0xBC,
         CHR 0xE3, CHR 0x83, CHR 0x9E, CHR 0xE3, CHR 0x83, CHR 0xAB]),
     (''standard'',
        [CHR 0xE9, CHR 0x80, CHR 0x9A, CHR 0xE5, CHR 0xB8, CHR 0xB8]),
     (''high_tension'',
        [CHR 0xE3, CHR 0x83, CHR 0x86, CHR 0xE3, CHR 0x83, CHR 0xB3,
         CHR 0xE3, CHR 0x82, CHR 0xB7, CHR 0xE3, CHR 0x83, CHR 0xA7,
         CHR 0xE3, CHR 0x83, CHR 0xB3, CHR 0xE9, CHR 0xAB, CHR 0x98,
         CHR 0xE3, CHR 0x82, CHR 0x81]),
     (''calm'',
        [CHR 0xE8, CHR 0x90, CHR 0xBD, CHR 0xE3, CHR 0x81, CHR 0xA1,
         CHR 0xE7, CHR 0x9D, CHR 0x80, CHR 0xE3, CHR 0x81, CHR 0x8D]),
     (''cheerful'',
        [CHR 0xE4, CHR 0xB8, CHR 0x8A, CHR 0xE6, CHR 0xA9, CHR 0x9F,
         CHR 0xE5, CHR 0xAB, CHR 0x8C]),
     (''emotional'',
        [CHR 0xE6, CHR 0x80, CHR 0x92, CHR 0xE3, CHR 0x82, CHR 0x8A,
         CHR 0xE3, CHR 0x83, CHR 0xBB, CHR 0xE6, CHR 0x82, CHR 0xB2,
         CHR 0xE3, CHR 0x81, CHR 0x97, CHR 0xE3, CHR 0x81, CHR 0xBF])]"

text \<open>One value of the \<^verbatim>\<open>style_params\<close> literal: the five keys in the order written.\<close>

definition params :: "rat \<Rightarrow> rat \<Rightarrow> rat \<Rightarrow> rat \<Rightarrow> rat \<Rightarrow> json" where
  "params sp pt it vo em =
     JObj [(''speed'', JFloat sp), (''pitch'', JFloat pt), (''intonation'', JFloat it),
           (''volume'', JFloat vo), (''emotion_strength'', JFloat em)]"

definition style_params :: dict where
  "style_params =
    [(''normal'', params 1.0 0.0 1.0 1.0 0.5),
     (''standard'', params 1.0 0.0 1.0 1.0 0.5),
     (''high_tension'', params 1.2 0.2 1.5 1.2 0.8),
     (''calm'', params 0.9 (-0.1) 0.8 0.9 0.3),
     (''cheerful'', params 1.1 0.1 1.3 1.1 0.7),
     (''emotional'', params 0.95 (-0.2) 1.4 1.0 0.9)]"

text \<open>
  \<^verbatim>\<open>style_params.get(style_id, style_params["normal"])\<close>: the default is an argument,
  so it is looked up first, and a missing \<^verbatim>\<open>"normal"\<close> would be a \<^verbatim>\<open>KeyError\<close>.
\<close>

definition get_style_parameters :: "string \<Rightarrow> error + json" where
  "get_style_parameters style_id =
     (case map_of style_params ''normal'' of
        None \<Rightarrow> Inl (KeyError ''normal'')
      | Some dflt \<Rightarrow>
          Inr (case map_of style_params style_id of Some p \<Rightarrow> p | None \<Rightarrow> dflt))"

section \<open>Merging the catalog into a document\<close>

text \<open>
  Lines 56 to 59 of \<^verbatim>\<open>add_styles_to_model\<close>: the configuration is the value under
  \<^verbatim>\<open>"config"\<close> when the document's \<^verbatim>\<open>"type"\<close> is \<^verbatim>\<open>"aivis"\<close>, and the document itself
  otherwise. A document that is not a dictionary has no \<^verbatim>\<open>get\<close>.
\<close>

definition get_config :: "json \<Rightarrow> error + json" where
  "get_config model_data =
     (case model_data of
        JObj m \<Rightarrow>
          (if map_of m ''type'' = Some (JStr ''aivis'')
           then (case map_of m ''config'' of
                   None \<Rightarrow> Inl (KeyError ''config'')
                 | Some config \<Rightarrow> Inr config)
           else Inr model_data)
      | _ \<Rightarrow> Inl AttributeError)"

text \<open>
  One round of the loop over \<^verbatim>\<open>self.styles.items()\<close>: the new entry is built first,
  then \<^verbatim>\<open>config["styles"]\<close> is looked up and the entry stored in it, which only a
  dictionary accepts with a string key.
\<close>

definition set_style_entry :: "string \<Rightarrow> string \<Rightarrow> dict \<Rightarrow> error + dict" where
  "set_style_entry style_id style_name c =
     (case get_style_parameters style_id of
        Inl e \<Rightarrow> Inl e
      | Inr p \<Rightarrow>
          (case map_of c ''styles'' of
             None \<Rightarrow> Inl (KeyError ''styles'')
           | Some (JObj st) \<Rightarrow>
               Inr (dict_set ''styles''
                     (JObj (dict_set style_id
                        (JObj [(''name'', JStr style_name), (''parameters'', p)]) st)) c)
           | Some _ \<Rightarrow> Inl TypeError))"

fun add_style_entries :: "(string \<times> string) list \<Rightarrow> dict \<Rightarrow> error + dict" where
  "add_style_entries [] c = Inr c"
| "add_style_entries ((style_id, style_name) # rest) c =
     (case set_style_entry style_id style_name c of
        Inl e \<Rightarrow> Inl e
      | Inr c' \<Rightarrow> add_style_entries rest c')"

text \<open>
  The body of the loop over the speakers. \<^verbatim>\<open>"styles" not in speaker\<close> asks a dictionary
  for the key, a list for an equal element and a string for a substring, and raises on
  anything else; \<^verbatim>\<open>speaker["styles"] = ...\<close> then succeeds on a dictionary only.
\<close>

definition add_speaker_styles :: "json \<Rightarrow> error + json" where
  "add_speaker_styles speaker =
     (case speaker of
        JObj d \<Rightarrow>
          (if map_of d ''styles'' = None
           then Inr (JObj (dict_set ''styles'' (JArr (map (\<lambda>(k, _). JStr k) self_styles)) d))
           else Inr speaker)
      | JArr xs \<Rightarrow> (if JStr ''styles'' \<in> set xs then Inr speaker else Inl TypeError)
      | JStr s \<Rightarrow> (if str_contains s ''styles'' then Inr speaker else Inl TypeError)
      | _ \<Rightarrow> Inl TypeError)"

fun each_speaker :: "json list \<Rightarrow> error + json list" where
  "each_speaker [] = Inr []"
| "each_speaker (speaker # rest) =
     (case add_speaker_styles speaker of
        Inl e \<Rightarrow> Inl e
      | Inr speaker' \<Rightarrow>
          (case each_speaker rest of
             Inl e \<Rightarrow> Inl e
           | Inr rest' \<Rightarrow> Inr (speaker' # rest')))"

text \<open>
  \<^verbatim>\<open>for speaker in config["speakers"]\<close>: a list gives its elements, which the body may
  update; a dictionary gives its keys and a string its characters, which the body can
  only accept or raise on (a single character never contains \<^verbatim>\<open>"styles"\<close>, whether it
  is taken as one code point or byte by byte); nothing else can be iterated.
\<close>

definition for_speakers :: "json \<Rightarrow> error + json" where
  "for_speakers speakers =
     (case speakers of
        JArr xs \<Rightarrow> (case each_speaker xs of Inl e \<Rightarrow> Inl e | Inr xs' \<Rightarrow> Inr (JArr xs'))
      | JObj d \<Rightarrow>
          (case each_speaker (map (\<lambda>(k, _). JStr k) d) of
             Inl e \<Rightarrow> Inl e | Inr _ \<Rightarrow> Inr speakers)
      | JStr s \<Rightarrow>
          (case each_speaker (map (\<lambda>ch. JStr [ch]) s) of
             Inl e \<Rightarrow> Inl e | Inr _ \<Rightarrow> Inr speakers)
      | _ \<Rightarrow> Inl TypeError)"

text \<open>
  Lines 61 to 73 on the configuration. A configuration that is not a dictionary raises
  \<^verbatim>\<open>TypeError\<close> on every path: numbers, booleans and \<^verbatim>\<open>None\<close> at the membership
  test, a list or a string at \<^verbatim>\<open>config["styles"]\<close>, read or written.
\<close>

definition merge_config :: "json \<Rightarrow> error + json" where
  "merge_config config =
     (case config of
        JObj c \<Rightarrow>
          (let c1 = (if map_of c ''styles'' = None then dict_set ''styles'' (JObj []) c else c)
           in case add_style_entries self_styles c1 of
                Inl e \<Rightarrow> Inl e
              | Inr c2 \<Rightarrow>
                  (case map_of c2 ''speakers'' of
                     None \<Rightarrow> Inr (JObj c2)
                   | Some speakers \<Rightarrow>
                       (case for_speakers speakers of
                          Inl e \<Rightarrow> Inl e
                        | Inr speakers' \<Rightarrow> Inr (JObj (dict_set ''speakers'' speakers' c2)))))
      | _ \<Rightarrow> Inl TypeError)"

text \<open>
  \<^verbatim>\<open>add_styles_to_model\<close>: the configuration is changed in place and the document
  returned, so for a document tagged \<^verbatim>\<open>"aivis"\<close> the result is the document with the
  merged configuration under \<^verbatim>\<open>"config"\<close>.
\<close>

definition add_styles_to_model :: "json \<Rightarrow> error + json" where
  "add_styles_to_model model_data =
     (case model_data of
        JObj m \<Rightarrow>
          (if map_of m ''type'' = Some (JStr ''aivis'')
           then (case map_of m ''config'' of
                   None \<Rightarrow> Inl (KeyError ''config'')
                 | Some config \<Rightarrow>
                     (case merge_config config of
                        Inl e \<Rightarrow> Inl e
                      | Inr config' \<Rightarrow> Inr (JObj (dict_set ''config'' config' m))))
           else merge_config model_data)
      | _ \<Rightarrow> Inl AttributeError)"

section \<open>Files\<close>

text \<open>
  The file system is one tree, rooted at the working directory: a path is the list of its
  components and the tree an association list from paths to nodes. The \<^verbatim>\<open>json\<close> and
  \<^verbatim>\<open>zipfile\<close> libraries are not part of the program, so a file is kept as what they
  read from it: the JSON value its text denotes, the members of the archive it is, or
  bytes that are neither. \<^verbatim>\<open>json.dump\<close> followed by \<^verbatim>\<open>json.load\<close> is taken to
  give the value back. No operation fails for a reason the tree does not show (rights,
  space, a device error).
\<close>

type_synonym path = "string list"

datatype content =
    Text json
  | Zip "(path \<times> content) list"
  | Raw string

datatype node = Dir | File content

type_synonym fs = "(path \<times> node) list"

fun components :: "string \<Rightarrow> string list" where
  "components [] = [[]]"
| "components (c # cs) =
     (if c = CHR ''/'' then [] # components cs
      else (case components cs of w # ws \<Rightarrow> (c # w) # ws | [] \<Rightarrow> [[c]]))"

text \<open>A path string names the components between its slashes; empty ones and \<^verbatim>\<open>.\<close> are dropped.\<close>

definition path_of :: "string \<Rightarrow> path" where
  "path_of s = filter (\<lambda>w. w \<noteq> [] \<and> w \<noteq> ''.'') (components s)"

definition is_dir :: "fs \<Rightarrow> path \<Rightarrow> bool" where
  "is_dir fs p = (p = [] \<or> map_of fs p = Some Dir)"

definition path_exists :: "fs \<Rightarrow> path \<Rightarrow> bool" where
  "path_exists fs p = (p = [] \<or> map_of fs p \<noteq> None)"

definition under :: "path \<Rightarrow> path \<Rightarrow> bool" where
  "under d p = (take (length d) p = d)"

text \<open>Opening a file for reading and taking all of it.\<close>

definition read_file :: "path \<Rightarrow> fs \<Rightarrow> error + content" where
  "read_file p fs =
     (case map_of fs p of
        Some (File c) \<Rightarrow> Inr c
      | Some Dir \<Rightarrow> Inl (OSError EISDIR)
      | None \<Rightarrow> Inl (OSError (if p = [] then EISDIR else ENOENT)))"

text \<open>\<^verbatim>\<open>open(p, 'w')\<close>: the file is made, or emptied, when its directory is there.\<close>

definition open_w :: "path \<Rightarrow> content \<Rightarrow> fs \<Rightarrow> (error + unit) \<times> fs" where
  "open_w p c fs =
     (if is_dir fs p then (Inl (OSError EISDIR), fs)
      else if \<not> is_dir fs (butlast p)
      then (Inl (OSError (if path_exists fs (butlast p) then ENOTDIR else ENOENT)), fs)
      else (Inr (), dict_set p (File c) fs))"

definition json_load :: "content \<Rightarrow> error + json" where
  "json_load c = (case c of Text v \<Rightarrow> Inr v | _ \<Rightarrow> Inl JSONDecodeError)"

text \<open>\<^verbatim>\<open>Path.mkdir(exist_ok=True)\<close>.\<close>

definition mkdir_exist_ok :: "path \<Rightarrow> fs \<Rightarrow> (error + unit) \<times> fs" where
  "mkdir_exist_ok p fs =
     (if is_dir fs p then (Inr (), fs)
      else if path_exists fs p then (Inl (OSError EEXIST), fs)
      else if \<not> is_dir fs (butlast p)
      then (Inl (OSError (if path_exists fs (butlast p) then ENOTDIR else ENOENT)), fs)
      else (Inr (), dict_set p Dir fs))"

text \<open>
  \<^verbatim>\<open>shutil.rmtree(p, ignore_errors=True)\<close>: a directory goes with all that is below
  it; anything else is an error, which is ignored.
\<close>

definition rmtree :: "path \<Rightarrow> fs \<Rightarrow> fs" where
  "rmtree p fs = (if is_dir fs p then filter (\<lambda>(q, _). \<not> under p q) fs else fs)"

text \<open>
  \<^verbatim>\<open>ZipFile.extractall\<close>: member after member, the directories on the way to the
  member are made where they are missing and the member is written over whatever file
  is there. A file in the place of a directory stops the extraction, and what was
  extracted before stays.
\<close>

fun make_dirs :: "path \<Rightarrow> string list \<Rightarrow> fs \<Rightarrow> (error + unit) \<times> fs" where
  "make_dirs base [] fs = (Inr (), fs)"
| "make_dirs base (n # ns) fs =
     (case map_of fs (base @ [n]) of
        Some (File _) \<Rightarrow> (Inl (OSError ENOTDIR), fs)
      | Some Dir \<Rightarrow> make_dirs (base @ [n]) ns fs
      | None \<Rightarrow> make_dirs (base @ [n]) ns (dict_set (base @ [n]) Dir fs))"

definition extract_member :: "path \<Rightarrow> path \<times> content \<Rightarrow> fs \<Rightarrow> (error + unit) \<times> fs" where
  "extract_member base member fs =
     (case make_dirs base (butlast (fst member)) fs of
        (Inl e, fs1) \<Rightarrow> (Inl e, fs1)
      | (Inr _, fs1) \<Rightarrow> open_w (base @ fst member) (snd member) fs1)"

fun extractall :: "path \<Rightarrow> (path \<times> content) list \<Rightarrow> fs \<Rightarrow> (error + unit) \<times> fs" where
  "extractall base [] fs = (Inr (), fs)"
| "extractall base (member # rest) fs =
     (case extract_member base member fs of
        (Inl e, fs1) \<Rightarrow> (Inl e, fs1)
      | (Inr _, fs1) \<Rightarrow> extractall base rest fs1)"

section \<open>Loading\<close>

definition temp_dir :: path where
  "temp_dir = [''temp_aivis_extract'']"

text \<open>The body of the \<^verbatim>\<open>try\<close> in \<^verbatim>\<open>_load_aivis_model\<close>.\<close>

definition load_aivis_try :: "string \<Rightarrow> fs \<Rightarrow> (error + json) \<times> fs" where
  "load_aivis_try model_path fs =
     (case read_file (path_of model_path) fs of
        Inl e \<Rightarrow> (Inl e, fs)
      | Inr (Zip members) \<Rightarrow>
          (case extractall temp_dir members fs of
             (Inl e, fs1) \<Rightarrow> (Inl e, fs1)
           | (Inr _, fs1) \<Rightarrow>
               (if path_exists fs1 (temp_dir @ [''config.json''])
                then (case read_file (temp_dir @ [''config.json'']) fs1 of
                        Inl e \<Rightarrow> (Inl e, fs1)
                      | Inr c \<Rightarrow>
                          (case json_load c of
                             Inl e \<Rightarrow> (Inl e, fs1)
                           | Inr config \<Rightarrow>
                               (Inr (JObj [(''type'', JStr ''aivis''), (''config'', config),
                                           (''temp_dir'', JStr ''temp_aivis_extract'')]), fs1)))
                else (Inl MissingConfig, fs1)))
      | Inr _ \<Rightarrow> (Inl BadZipFile, fs))"

text \<open>
  \<^verbatim>\<open>_load_aivis_model\<close>: the directory is made before the \<^verbatim>\<open>try\<close>, so an error of
  \<^verbatim>\<open>mkdir\<close> leaves at once; an error of the body passes through the handler, which
  removes the directory and raises the error again.
\<close>

definition load_aivis_model :: "string \<Rightarrow> fs \<Rightarrow> (error + json) \<times> fs" where
  "load_aivis_model model_path fs =
     (case mkdir_exist_ok temp_dir fs of
        (Inl e, fs1) \<Rightarrow> (Inl e, fs1)
      | (Inr _, fs1) \<Rightarrow>
          (case load_aivis_try model_path fs1 of
             (Inl e, fs2) \<Rightarrow> (Inl e, rmtree temp_dir fs2)
           | (Inr model_data, fs2) \<Rightarrow> (Inr model_data, fs2)))"

definition load_model :: "string \<Rightarrow> fs \<Rightarrow> (error + json) \<times> fs" where
  "load_model model_path fs =
     (if endswith model_path ''.aivis'' then load_aivis_model model_path fs
      else if endswith model_path ''.json''
      then (case read_file (path_of model_path) fs of
              Inl e \<Rightarrow> (Inl e, fs)
            | Inr c \<Rightarrow> (case json_load c of Inl e \<Rightarrow> (Inl e, fs) | Inr v \<Rightarrow> (Inr v, fs)))
      else (Inl UnsupportedFormat, fs))"

section \<open>Saving\<close>

text \<open>
  What \<^verbatim>\<open>temp_dir.rglob('*')\<close> with \<^verbatim>\<open>is_file\<close> and \<^verbatim>\<open>relative_to\<close> gives: the
  files below the directory, each under its path from there.
\<close>

definition files_below :: "path \<Rightarrow> fs \<Rightarrow> (path \<times> content) list" where
  "files_below d fs =
     concat (map (\<lambda>(p, n). case n of
                     File c \<Rightarrow> (if under d p \<and> p \<noteq> d then [(drop (length d) p, c)] else [])
                   | Dir \<Rightarrow> []) fs)"

text \<open>
  \<^verbatim>\<open>_save_aivis_model\<close>, statement by statement. \<^verbatim>\<open>config.json\<close> is opened before
  \<^verbatim>\<open>model_data["config"]\<close> is read, so a missing key leaves it empty. The archive is
  opened, which makes it as an empty archive, before the directory is walked. The
  directory is removed by the last statement, which only a run without error reaches.
\<close>

definition save_aivis_model :: "json \<Rightarrow> string \<Rightarrow> fs \<Rightarrow> (error + unit) \<times> fs" where
  "save_aivis_model model_data output_path fs =
     (case model_data of
        JObj m \<Rightarrow>
          (case map_of m ''temp_dir'' of
             None \<Rightarrow> (Inl (KeyError ''temp_dir''), fs)
           | Some (JStr t) \<Rightarrow>
               (let d = path_of t in
                case open_w (d @ [''config.json'']) (Raw []) fs of
                  (Inl e, fs1) \<Rightarrow> (Inl e, fs1)
                | (Inr _, fs1) \<Rightarrow>
                    (case map_of m ''config'' of
                       None \<Rightarrow> (Inl (KeyError ''config''), fs1)
                     | Some config \<Rightarrow>
                         (let fs2 = dict_set (d @ [''config.json'']) (File (Text config)) fs1 in
                          case open_w (path_of output_path) (Zip []) fs2 of
                            (Inl e, fs3) \<Rightarrow> (Inl e, fs3)
                          | (Inr _, fs3) \<Rightarrow>
                              (Inr (),
                               rmtree d
                                 (dict_set (path_of output_path)
                                    (File (Zip (files_below d fs3))) fs3)))))
           | Some _ \<Rightarrow> (Inl TypeError, fs))
      | _ \<Rightarrow> (Inl TypeError, fs))"

definition save_model :: "json \<Rightarrow> string \<Rightarrow> fs \<Rightarrow> (error + unit) \<times> fs" where
  "save_model model_data output_path fs =
     (case model_data of
        JObj m \<Rightarrow>
          (if map_of m ''type'' = Some (JStr ''aivis'')
           then save_aivis_model model_data output_path fs
           else open_w (path_of output_path) (Text model_data) fs)
      | _ \<Rightarrow> (Inl AttributeError, fs))"

section \<open>What the statements read off a document\<close>

text \<open>The style table and the speaker list of a document's configuration.\<close>

definition config_styles :: "json \<Rightarrow> dict option" where
  "config_styles model_data =
     (case get_config model_data of
        Inr (JObj c) \<Rightarrow> (case map_of c ''styles'' of Some (JObj st) \<Rightarrow> Some st | _ \<Rightarrow> None)
      | _ \<Rightarrow> None)"

definition config_speakers :: "json \<Rightarrow> json list option" where
  "config_speakers model_data =
     (case get_config model_data of
        Inr (JObj c) \<Rightarrow> (case map_of c ''speakers'' of Some (JArr sps) \<Rightarrow> Some sps | _ \<Rightarrow> None)
      | _ \<Rightarrow> None)"

text \<open>The style table before a merge; a configuration without one counts as empty.\<close>

definition prior_styles :: "json \<Rightarrow> dict" where
  "prior_styles model_data = (case config_styles model_data of Some st \<Rightarrow> st | None \<Rightarrow> [])"

text \<open>The display name stored for a style.\<close>

definition style_name_of :: "string \<Rightarrow> json \<Rightarrow> json option" where
  "style_name_of style_id model_data =
     (case config_styles model_data of
        Some st \<Rightarrow> (case map_of st style_id of Some (JObj e) \<Rightarrow> map_of e ''name'' | _ \<Rightarrow> None)
      | None \<Rightarrow> None)"

text \<open>
  The catalog as the specification tabulates it: identifier, display name, speed, pitch,
  intonation, volume and emotion strength.
\<close>

definition spec_table :: "(string \<times> string \<times> rat \<times> rat \<times> rat \<times> rat \<times> rat) list" where
  "spec_table =
    [(''normal'', ''Normal'', 1.0, 0.0, 1.0, 1.0, 0.5),
     (''standard'', ''Standard'', 1.0, 0.0, 1.0, 1.0, 0.5),
     (''high_tension'', ''High Tension'', 1.2, 0.2, 1.5, 1.2, 0.8),
     (''calm'', ''Calm'', 0.9, -0.1, 0.8, 0.9, 0.3),
     (''cheerful'', ''Cheerful'', 1.1, 0.1, 1.3, 1.1, 0.7),
     (''emotional'', ''Emotional'', 0.95, -0.2, 1.4, 1.0, 0.9)]"

text \<open>A key of a document, read at the top level.\<close>

definition field :: "string \<Rightarrow> json \<Rightarrow> json option" where
  "field k model_data = (case model_data of JObj m \<Rightarrow> map_of m k | _ \<Rightarrow> None)"

section \<open>One file of the batch\<close>

text \<open>
  The three calls \<^verbatim>\<open>process_files\<close> makes for each input file: load, merge, save. An
  exception of any of them ends the file, and the loop goes on with the next.
\<close>

definition process_file :: "string \<Rightarrow> string \<Rightarrow> fs \<Rightarrow> (error + unit) \<times> fs" where
  "process_file input_file output_file fs =
     (case load_model input_file fs of
        (Inl e, fs1) \<Rightarrow> (Inl e, fs1)
      | (Inr model_data, fs1) \<Rightarrow>
          (case add_styles_to_model model_data of
             Inl e \<Rightarrow> (Inl e, fs1)
           | Inr model_data' \<Rightarrow> save_model model_data' output_file fs1))"

section \<open>Closed forms of the loops\<close>

text \<open>What the parameter lookup returns, and the style table after the loop over the catalog.\<close>

definition param_of :: "string \<Rightarrow> json" where
  "param_of style_id =
     (case map_of style_params style_id of Some p \<Rightarrow> p | None \<Rightarrow> params 1.0 0.0 1.0 1.0 0.5)"

definition with_catalog :: "(string \<times> string) list \<Rightarrow> dict \<Rightarrow> dict" where
  "with_catalog cat st =
     foldl (\<lambda>st (style_id, style_name).
              dict_set style_id
                (JObj [(''name'', JStr style_name), (''parameters'', param_of style_id)]) st)
       st cat"

definition styles_of :: "dict \<Rightarrow> dict" where
  "styles_of c = (case map_of c ''styles'' of Some (JObj st) \<Rightarrow> st | _ \<Rightarrow> [])"

section \<open>Example inputs\<close>

text \<open>The example of the specification: one speaker, without styles.\<close>

definition example_config :: json where
  "example_config = JObj [(''speakers'', JArr [JObj [(''id'', JInt 1)]])]"

text \<open>A plain JSON document that carries the tag of a packaged one, and a file holding it.\<close>

definition tagged_plain :: json where
  "tagged_plain = JObj [(''type'', JStr ''aivis'')]"

definition fs_tagged :: fs where
  "fs_tagged = [([''model.json''], File (Text tagged_plain))]"

text \<open>
  A working directory with two archives: \<^verbatim>\<open>a.aivis\<close> holds a \<^verbatim>\<open>config.json\<close> and a
  model file, \<^verbatim>\<open>b.aivis\<close> holds a model file only.
\<close>

definition fs_archives :: fs where
  "fs_archives =
    [([''a.aivis''],
        File (Zip [([''config.json''], Text (JObj [(''name'', JStr ''A'')])),
                   ([''model.bin''], Raw ''weights of A'')])),
     ([''b.aivis''], File (Zip [([''model.bin''], Raw ''weights of B'')]))]"

text \<open>
  A packaged document as \<^verbatim>\<open>_load_aivis_model\<close> builds it, the configuration of
  \<^verbatim>\<open>a.aivis\<close> before and after the merge, and the working directory with an archive
  extracted into the staging directory.
\<close>

definition packaged :: "json \<Rightarrow> json" where
  "packaged config =
     JObj [(''type'', JStr ''aivis''), (''config'', config),
           (''temp_dir'', JStr ''temp_aivis_extract'')]"

definition config_a :: json where
  "config_a = JObj [(''name'', JStr ''A'')]"

definition config_a_merged :: json where
  "config_a_merged =
     JObj [(''name'', JStr ''A''), (''styles'', JObj (with_catalog self_styles []))]"

definition staged :: "json \<Rightarrow> string \<Rightarrow> fs" where
  "staged config weights =
     fs_archives @
     [([''temp_aivis_extract''], Dir),
      ([''temp_aivis_extract'', ''config.json''], File (Text config)),
      ([''temp_aivis_extract'', ''model.bin''], File (Raw weights))]"

text \<open>
  A plain JSON document with the tag and a \<^verbatim>\<open>config\<close> key, and the example of the
  specification as a file.
\<close>

definition tagged_config :: json where
  "tagged_config = JObj [(''type'', JStr ''aivis''), (''config'', JObj [])]"

definition fs_tagged_config :: fs where
  "fs_tagged_config = [([''model.json''], File (Text tagged_config))]"

definition fs_example :: fs where
  "fs_example = [([''model.json''], File (Text example_config))]"

section \<open>Dictionaries and the loop over the catalog\<close>

lemma map_of_dict_set: "map_of (dict_set k v d) = (map_of d)(k \<mapsto> v)"
  by (induction d) auto

lemma dict_set_same: "map_of d k = Some v \<Longrightarrow> dict_set k v d = d"
  by (induction d) (auto split: if_splits)

lemma dict_set_twice: "dict_set k v (dict_set k w d) = dict_set k v d"
  by (induction d) auto

lemma dict_set_new: "map_of d k = None \<Longrightarrow> dict_set k v d = d @ [(k, v)]"
  by (induction d) (auto split: if_splits)

lemma get_style_parameters_eq: "get_style_parameters style_id = Inr (param_of style_id)"
  by (simp add: get_style_parameters_def param_of_def style_params_def)

lemma set_style_entry_ok:
  "map_of c ''styles'' = Some (JObj st) \<Longrightarrow>
   set_style_entry style_id style_name c =
     Inr (dict_set ''styles''
            (JObj (dict_set style_id
               (JObj [(''name'', JStr style_name), (''parameters'', param_of style_id)]) st)) c)"
  by (simp add: set_style_entry_def get_style_parameters_eq)

lemma with_catalog_Cons:
  "with_catalog ((style_id, style_name) # cat) st =
   with_catalog cat
     (dict_set style_id (JObj [(''name'', JStr style_name), (''parameters'', param_of style_id)]) st)"
  by (simp add: with_catalog_def)

lemma add_style_entries_ok:
  "map_of c ''styles'' = Some (JObj st) \<Longrightarrow>
   add_style_entries cat c = Inr (dict_set ''styles'' (JObj (with_catalog cat st)) c)"
proof (induction cat arbitrary: c st)
  case Nil
  then show ?case by (simp add: with_catalog_def dict_set_same)
next
  case (Cons a cat)
  obtain style_id style_name where a: "a = (style_id, style_name)" by (cases a)
  let ?st = "dict_set style_id
               (JObj [(''name'', JStr style_name), (''parameters'', param_of style_id)]) st"
  have "map_of (dict_set ''styles'' (JObj ?st) c) ''styles'' = Some (JObj ?st)"
    by (simp add: map_of_dict_set)
  from Cons.IH [OF this] Cons.prems show ?case
    by (simp add: a set_style_entry_ok dict_set_twice with_catalog_Cons)
qed

lemma add_style_entries_bad:
  "map_of c ''styles'' = Some v \<Longrightarrow> \<forall>st. v \<noteq> JObj st \<Longrightarrow> cat \<noteq> [] \<Longrightarrow>
   add_style_entries cat c = Inl TypeError"
  by (cases cat; cases v) (auto simp: set_style_entry_def get_style_parameters_eq)

lemma self_styles_nonempty: "self_styles \<noteq> []"
  by (simp add: self_styles_def)

lemma distinct_self_styles: "distinct (map fst self_styles)"
  by (simp add: self_styles_def)

lemma map_of_with_catalog:
  "distinct (map fst cat) \<Longrightarrow>
   map_of (with_catalog cat st) k =
     (case map_of cat k of
        Some style_name \<Rightarrow> Some (JObj [(''name'', JStr style_name), (''parameters'', param_of k)])
      | None \<Rightarrow> map_of st k)"
proof (induction cat arbitrary: st)
  case Nil
  then show ?case by (simp add: with_catalog_def)
next
  case (Cons a cat)
  obtain style_id style_name where a: "a = (style_id, style_name)" by (cases a)
  from Cons.prems have d: "distinct (map fst cat)" and n: "map_of cat style_id = None"
    by (auto simp: a map_of_eq_None_iff)
  show ?case
    using n by (simp add: a with_catalog_Cons Cons.IH [OF d] map_of_dict_set split: option.splits)
qed

lemma with_catalog_same:
  "(\<And>style_id style_name. (style_id, style_name) \<in> set cat \<Longrightarrow>
      map_of d style_id =
        Some (JObj [(''name'', JStr style_name), (''parameters'', param_of style_id)])) \<Longrightarrow>
   with_catalog cat d = d"
proof (induction cat)
  case Nil
  then show ?case by (simp add: with_catalog_def)
next
  case (Cons a cat)
  obtain style_id style_name where a: "a = (style_id, style_name)" by (cases a)
  have "dict_set style_id
          (JObj [(''name'', JStr style_name), (''parameters'', param_of style_id)]) d = d"
    by (rule dict_set_same) (simp add: Cons.prems a)
  then show ?case
    using Cons by (simp add: a with_catalog_Cons)
qed

lemma with_catalog_idem:
  assumes "distinct (map fst cat)"
  shows "with_catalog cat (with_catalog cat st) = with_catalog cat st"
proof (rule with_catalog_same)
  fix style_id style_name
  assume "(style_id, style_name) \<in> set cat"
  with assms have "map_of cat style_id = Some style_name" by simp
  then show "map_of (with_catalog cat st) style_id =
      Some (JObj [(''name'', JStr style_name), (''parameters'', param_of style_id)])"
    by (simp add: map_of_with_catalog [OF assms])
qed

section \<open>The loop over the speakers\<close>

lemma add_speaker_styles_idem:
  "add_speaker_styles s = Inr s' \<Longrightarrow> add_speaker_styles s' = Inr s'"
  by (cases s) (auto simp: add_speaker_styles_def map_of_dict_set split: if_splits)

lemma add_speaker_styles_Inr:
  "add_speaker_styles s = Inr s' \<Longrightarrow>
   (case s of
      JObj d \<Rightarrow>
        (if map_of d ''styles'' = None
         then s' = JObj (d @ [(''styles'',
                 JArr [JStr ''normal'', JStr ''standard'', JStr ''high_tension'',
                       JStr ''calm'', JStr ''cheerful'', JStr ''emotional''])])
         else s' = s)
    | _ \<Rightarrow> s' = s)"
  by (cases s)
     (auto simp: add_speaker_styles_def self_styles_def dict_set_new split: if_splits)

lemma each_speaker_idem: "each_speaker xs = Inr xs' \<Longrightarrow> each_speaker xs' = Inr xs'"
  by (induction xs arbitrary: xs') (auto split: sum.splits dest: add_speaker_styles_idem)

lemma each_speaker_all2:
  "each_speaker xs = Inr xs' \<Longrightarrow> list_all2 (\<lambda>s s'. add_speaker_styles s = Inr s') xs xs'"
  by (induction xs arbitrary: xs') (auto split: sum.splits)

lemma for_speakers_idem: "for_speakers sp = Inr sp' \<Longrightarrow> for_speakers sp' = Inr sp'"
  by (cases sp) (auto simp: for_speakers_def split: sum.splits dest: each_speaker_idem)

lemma for_speakers_JArr:
  assumes "for_speakers (JArr xs) = Inr sp'"
  obtains xs' where "sp' = JArr xs'" "each_speaker xs = Inr xs'"
  using assms by (cases "each_speaker xs") (auto simp: for_speakers_def)

section \<open>The merge on a configuration and on a document\<close>

lemma merge_config_Inr:
  assumes "merge_config cfg = Inr cfg'"
  shows "\<exists>c c'. cfg = JObj c \<and> cfg' = JObj c' \<and>
           map_of c' ''styles'' = Some (JObj (with_catalog self_styles (styles_of c))) \<and>
           (\<forall>k. k \<noteq> ''styles'' \<longrightarrow> k \<noteq> ''speakers'' \<longrightarrow> map_of c' k = map_of c k) \<and>
           (case map_of c ''speakers'' of
              None \<Rightarrow> map_of c' ''speakers'' = None
            | Some sp \<Rightarrow> \<exists>sp'. for_speakers sp = Inr sp' \<and> map_of c' ''speakers'' = Some sp')"
proof -
  obtain c where c: "cfg = JObj c"
    using assms by (cases cfg) (simp_all add: merge_config_def)
  define c1 where "c1 = (if map_of c ''styles'' = None then dict_set ''styles'' (JObj []) c else c)"
  have bad: False if "map_of c ''styles'' = Some v" "\<forall>st. v \<noteq> JObj st" for v
    using assms that add_style_entries_bad [OF that self_styles_nonempty]
    by (simp add: c merge_config_def)
  have c1: "map_of c1 ''styles'' = Some (JObj (styles_of c))"
  proof (cases "map_of c ''styles''")
    case None
    then show ?thesis by (simp add: c1_def styles_of_def map_of_dict_set)
  next
    case (Some v)
    with bad obtain st where "v = JObj st" by blast
    with Some show ?thesis by (simp add: c1_def styles_of_def)
  qed
  have c1_other: "map_of c1 k = map_of c k" if "k \<noteq> ''styles''" for k
    using that by (simp add: c1_def map_of_dict_set)
  define c2 where "c2 = dict_set ''styles'' (JObj (with_catalog self_styles (styles_of c))) c1"
  have step: "add_style_entries self_styles c1 = Inr c2"
    unfolding c2_def by (rule add_style_entries_ok [OF c1])
  have c2_styles: "map_of c2 ''styles'' = Some (JObj (with_catalog self_styles (styles_of c)))"
    by (simp add: c2_def map_of_dict_set)
  have c2_other: "map_of c2 k = map_of c k" if "k \<noteq> ''styles''" for k
    using that c1_other by (simp add: c2_def map_of_dict_set)
  have eq: "(case map_of c ''speakers'' of
               None \<Rightarrow> Inr (JObj c2)
             | Some speakers \<Rightarrow>
                 (case for_speakers speakers of
                    Inl e \<Rightarrow> Inl e
                  | Inr speakers' \<Rightarrow> Inr (JObj (dict_set ''speakers'' speakers' c2)))) = Inr cfg'"
    using assms step c2_other [of "''speakers''"]
    by (simp add: c merge_config_def c1_def [symmetric])
  show ?thesis
  proof (cases "map_of c ''speakers''")
    case None
    with eq have "cfg' = JObj c2" by simp
    with None c c2_styles c2_other show ?thesis by simp
  next
    case (Some sp)
    with eq obtain sp' where sp': "for_speakers sp = Inr sp'"
      and r: "cfg' = JObj (dict_set ''speakers'' sp' c2)"
      by (auto split: sum.splits)
    show ?thesis
      using Some c r sp' c2_styles c2_other by (simp add: map_of_dict_set)
  qed
qed

lemma merge_config_idem:
  assumes "merge_config cfg = Inr cfg'"
  shows "merge_config cfg' = Inr cfg'"
proof -
  from merge_config_Inr [OF assms] obtain c c' where c: "cfg = JObj c" and c': "cfg' = JObj c'"
    and st: "map_of c' ''styles'' = Some (JObj (with_catalog self_styles (styles_of c)))"
    and sp: "case map_of c ''speakers'' of
              None \<Rightarrow> map_of c' ''speakers'' = None
            | Some sp \<Rightarrow> \<exists>sp'. for_speakers sp = Inr sp' \<and> map_of c' ''speakers'' = Some sp'"
    by blast
  have entries: "add_style_entries self_styles c' = Inr c'"
    using st
    by (simp add: add_style_entries_ok [OF st] with_catalog_idem [OF distinct_self_styles]
        dict_set_same)
  show ?thesis
  proof (cases "map_of c' ''speakers''")
    case None
    with st entries show ?thesis by (simp add: c' merge_config_def)
  next
    case (Some sp')
    with sp have "for_speakers sp' = Inr sp'"
      by (auto split: option.splits dest: for_speakers_idem)
    with Some st entries show ?thesis by (simp add: c' merge_config_def dict_set_same)
  qed
qed

lemma add_styles_to_model_cases:
  assumes "add_styles_to_model md = Inr md'"
  obtains (Packaged) m cfg cfg' where "md = JObj m" "map_of m ''type'' = Some (JStr ''aivis'')"
      "map_of m ''config'' = Some cfg" "merge_config cfg = Inr cfg'"
      "md' = JObj (dict_set ''config'' cfg' m)"
    | (Plain) m where "md = JObj m" "map_of m ''type'' \<noteq> Some (JStr ''aivis'')"
      "merge_config md = Inr md'"
proof -
  obtain m where m: "md = JObj m"
    using assms by (cases md) (simp_all add: add_styles_to_model_def)
  show thesis
  proof (cases "map_of m ''type'' = Some (JStr ''aivis'')")
    case True
    from assms obtain cfg where cfg: "map_of m ''config'' = Some cfg"
      by (cases "map_of m ''config''") (simp_all add: add_styles_to_model_def m True)
    from assms obtain cfg' where cfg': "merge_config cfg = Inr cfg'"
      by (cases "merge_config cfg") (simp_all add: add_styles_to_model_def m True cfg)
    from assms have "md' = JObj (dict_set ''config'' cfg' m)"
      by (simp add: add_styles_to_model_def m True cfg cfg')
    with m True cfg cfg' show thesis by (rule Packaged)
  next
    case False
    with assms have "merge_config md = Inr md'"
      by (simp add: add_styles_to_model_def m)
    with m False show thesis by (rule Plain)
  qed
qed

lemma merge_config_type:
  assumes "merge_config (JObj c) = Inr cfg'"
  obtains c' where "cfg' = JObj c'" "map_of c' ''type'' = map_of c ''type''"
proof -
  from merge_config_Inr [OF assms] obtain c0 c' where "JObj c = JObj c0" "cfg' = JObj c'"
    and fr: "\<forall>k. k \<noteq> ''styles'' \<longrightarrow> k \<noteq> ''speakers'' \<longrightarrow> map_of c' k = map_of c0 k"
    by blast
  moreover from fr have "map_of c' ''type'' = map_of c0 ''type''" by simp
  ultimately show thesis using that by simp
qed

lemma add_styles_to_model_Inr:
  assumes "add_styles_to_model md = Inr md'"
  shows "\<exists>cfg cfg'. get_config md = Inr cfg \<and> merge_config cfg = Inr cfg' \<and>
           get_config md' = Inr cfg'"
  using assms
proof (cases rule: add_styles_to_model_cases)
  case (Packaged m cfg cfg')
  then show ?thesis by (simp add: get_config_def map_of_dict_set)
next
  case (Plain m)
  from Plain(3) obtain c' where "md' = JObj c'" "map_of c' ''type'' = map_of m ''type''"
    unfolding Plain(1) by (rule merge_config_type)
  with Plain show ?thesis by (simp add: get_config_def)
qed

lemma add_styles_to_model_idem:
  assumes "add_styles_to_model md = Inr md'"
  shows "add_styles_to_model md' = Inr md'"
  using assms
proof (cases rule: add_styles_to_model_cases)
  case (Packaged m cfg cfg')
  have "merge_config cfg' = Inr cfg'"
    using Packaged(4) by (rule merge_config_idem)
  with Packaged show ?thesis
    by (simp add: add_styles_to_model_def map_of_dict_set dict_set_twice)
next
  case (Plain m)
  from Plain(3) obtain c' where "md' = JObj c'" "map_of c' ''type'' = map_of m ''type''"
    unfolding Plain(1) by (rule merge_config_type)
  with Plain merge_config_idem [OF Plain(3)] show ?thesis
    by (simp add: add_styles_to_model_def)
qed

text \<open>
  After a merge that returns, the style table of the configuration is the table it had
  before with the catalog written over it.
\<close>

lemma merged_styles:
  assumes "add_styles_to_model md = Inr md'"
  shows "config_styles md' = Some (with_catalog self_styles (prior_styles md))"
proof -
  from add_styles_to_model_Inr [OF assms] obtain cfg cfg' where g: "get_config md = Inr cfg"
    and m: "merge_config cfg = Inr cfg'" and g': "get_config md' = Inr cfg'"
    by blast
  from merge_config_Inr [OF m] obtain c c' where c: "cfg = JObj c" and c': "cfg' = JObj c'"
    and st: "map_of c' ''styles'' = Some (JObj (with_catalog self_styles (styles_of c)))"
    by blast
  have "prior_styles md = styles_of c"
    using g c
    by (simp add: prior_styles_def config_styles_def styles_of_def
        split: option.splits json.splits)
  with g' c' st show ?thesis by (simp add: config_styles_def)
qed

lemma merged_lookup:
  "map_of (with_catalog self_styles st) k =
     (case map_of self_styles k of
        Some style_name \<Rightarrow> Some (JObj [(''name'', JStr style_name), (''parameters'', param_of k)])
      | None \<Rightarrow> map_of st k)"
  by (rule map_of_with_catalog [OF distinct_self_styles])


section \<open>The saved examples\<close>

lemma example_merged:
  "add_styles_to_model example_config =
     Inr (JObj [(''speakers'',
                 JArr [JObj [(''id'', JInt 1),
                             (''styles'',
                              JArr [JStr ''normal'', JStr ''standard'', JStr ''high_tension'',
                                    JStr ''calm'', JStr ''cheerful'', JStr ''emotional''])]]),
                (''styles'', JObj (with_catalog self_styles []))])"
proof -
  have "add_style_entries self_styles
          [(''speakers'', JArr [JObj [(''id'', JInt 1)]]), (''styles'', JObj [])] =
        Inr [(''speakers'', JArr [JObj [(''id'', JInt 1)]]),
             (''styles'', JObj (with_catalog self_styles []))]"
    by (simp add: add_style_entries_ok [where st = "[]"])
  then show ?thesis
    by (simp add: example_config_def add_styles_to_model_def merge_config_def for_speakers_def
        add_speaker_styles_def self_styles_def)
qed

section \<open>The claims about the merge\<close>

text \<open>
  C9. The parameter lookup never fails, and for every identifier outside the six of the
  catalog it returns the record of \<^verbatim>\<open>"normal"\<close>: speed 1.0, pitch 0.0, intonation 1.0,
  volume 1.0, emotion strength 0.5.
\<close>

theorem get_style_parameters_fallback:
  "style_id \<notin> {''normal'', ''standard'', ''high_tension'', ''calm'', ''cheerful'', ''emotional''} \<Longrightarrow>
   get_style_parameters style_id =
     Inr (JObj [(''speed'', JFloat 1.0), (''pitch'', JFloat 0.0), (''intonation'', JFloat 1.0),
                (''volume'', JFloat 1.0), (''emotion_strength'', JFloat 0.5)])"
  by (simp add: get_style_parameters_def style_params_def params_def)

theorem get_style_parameters_fallback_witness:
  "''whisper'' \<notin> {''normal'', ''standard'', ''high_tension'', ''calm'', ''cheerful'', ''emotional''} \<and>
   get_style_parameters ''whisper'' =
     Inr (JObj [(''speed'', JFloat 1.0), (''pitch'', JFloat 0.0), (''intonation'', JFloat 1.0),
                (''volume'', JFloat 1.0), (''emotion_strength'', JFloat 0.5)])"
  using get_style_parameters_fallback [of "''whisper''"] by simp

text \<open>
  C3. The merge is idempotent: for every document, merging twice gives what merging once
  gives. When the first merge returns a document, the second returns the very same
  document, hence the same style table; when the first raises, that is the result.
\<close>

theorem add_styles_to_model_idempotent:
  "(case add_styles_to_model md of
      Inl e \<Rightarrow> Inl e
    | Inr md' \<Rightarrow> add_styles_to_model md') = add_styles_to_model md"
  by (cases "add_styles_to_model md") (simp_all add: add_styles_to_model_idem)

text \<open>
  C1, as the code has it. When the merge returns, the style table of the configuration
  maps each of the six identifiers of the tabulated catalog to an entry whose parameters
  are exactly the tabulated values, and every other key is as it was before the merge:
  styles the configuration already had are kept, so the table holds the six identifiers
  and no others only when it held no others before.
\<close>

theorem merge_injects_catalog:
  assumes "add_styles_to_model md = Inr md'"
  shows "\<exists>st'. config_styles md' = Some st' \<and>
           (\<forall>(style_id, display, sp, pt, it, vo, em) \<in> set spec_table.
              \<exists>nm. map_of st' style_id =
                Some (JObj [(''name'', JStr nm),
                            (''parameters'',
                             JObj [(''speed'', JFloat sp), (''pitch'', JFloat pt),
                                   (''intonation'', JFloat it), (''volume'', JFloat vo),
                                   (''emotion_strength'', JFloat em)])])) \<and>
           (\<forall>k. k \<notin> fst ` set spec_table \<longrightarrow> map_of st' k = map_of (prior_styles md) k) \<and>
           fst ` set st' = fst ` set spec_table \<union> fst ` set (prior_styles md)"
proof -
  let ?st = "with_catalog self_styles (prior_styles md)"
  have 1: "config_styles md' = Some ?st"
    using assms by (rule merged_styles)
  have 2: "\<forall>(style_id, display, sp, pt, it, vo, em) \<in> set spec_table.
              \<exists>nm. map_of ?st style_id =
                Some (JObj [(''name'', JStr nm),
                            (''parameters'',
                             JObj [(''speed'', JFloat sp), (''pitch'', JFloat pt),
                                   (''intonation'', JFloat it), (''volume'', JFloat vo),
                                   (''emotion_strength'', JFloat em)])])"
    unfolding merged_lookup
    by (simp add: spec_table_def self_styles_def param_of_def style_params_def params_def)
  have 3: "map_of ?st k = map_of (prior_styles md) k" if "k \<notin> fst ` set spec_table" for k
    using that unfolding merged_lookup by (simp add: spec_table_def self_styles_def)
  have in_table: "map_of ?st k \<noteq> None" if "k \<in> fst ` set spec_table" for k
    using that unfolding merged_lookup by (auto simp: spec_table_def self_styles_def)
  have "dom (map_of ?st) = fst ` set spec_table \<union> dom (map_of (prior_styles md))"
  proof (rule set_eqI)
    fix k
    show "k \<in> dom (map_of ?st) \<longleftrightarrow> k \<in> fst ` set spec_table \<union> dom (map_of (prior_styles md))"
      using 3 [of k] in_table [of k] by (cases "k \<in> fst ` set spec_table") (auto simp: dom_def)
  qed
  then have 4: "fst ` set ?st = fst ` set spec_table \<union> fst ` set (prior_styles md)"
    by (simp add: dom_map_of_conv_image_fst)
  from 1 2 3 4 show ?thesis by blast
qed

theorem merge_injects_catalog_witness:
  "add_styles_to_model example_config = Inr (projr (add_styles_to_model example_config)) \<and>
   (\<exists>st'. config_styles (projr (add_styles_to_model example_config)) = Some st' \<and>
           (\<forall>(style_id, display, sp, pt, it, vo, em) \<in> set spec_table.
              \<exists>nm. map_of st' style_id =
                Some (JObj [(''name'', JStr nm),
                            (''parameters'',
                             JObj [(''speed'', JFloat sp), (''pitch'', JFloat pt),
                                   (''intonation'', JFloat it), (''volume'', JFloat vo),
                                   (''emotion_strength'', JFloat em)])])) \<and>
           (\<forall>k. k \<notin> fst ` set spec_table \<longrightarrow>
                map_of st' k = map_of (prior_styles example_config) k) \<and>
           fst ` set st' = fst ` set spec_table \<union> fst ` set (prior_styles example_config))"
proof -
  have h: "add_styles_to_model example_config = Inr (projr (add_styles_to_model example_config))"
    by (simp add: example_merged)
  from h merge_injects_catalog [OF h] show ?thesis by (rule conjI)
qed

text \<open>
  C1 as stated fails: a configuration that already has a style named \<^verbatim>\<open>whisper\<close> has
  seven identifiers in its style table after the merge.
\<close>

theorem merge_exactly_six_counterexample:
  "map_sum id (map_option (map fst) \<circ> config_styles)
     (add_styles_to_model (JObj [(''styles'', JObj [(''whisper'', JObj [])])])) =
   Inr (Some [''whisper'', ''normal'', ''standard'', ''high_tension'', ''calm'', ''cheerful'',
              ''emotional''])"
proof -
  have "add_style_entries self_styles [(''styles'', JObj [(''whisper'', JObj [])])] =
        Inr [(''styles'', JObj (with_catalog self_styles [(''whisper'', JObj [])]))]"
    by (simp add: add_style_entries_ok [where st = "[(''whisper'', JObj [])]"])
  then show ?thesis
    by (simp add: add_styles_to_model_def merge_config_def config_styles_def get_config_def
        with_catalog_def self_styles_def)
qed

text \<open>
  C8, as the code has it. The entries the merge stores carry the display names of
  \<^verbatim>\<open>self.styles\<close>, which are Japanese; each is given here by the bytes of its UTF-8
  encoding, in the order normal, standard, high_tension, calm, cheerful, emotional.
\<close>

theorem merge_display_names:
  assumes "add_styles_to_model md = Inr md'"
  shows "style_name_of ''normal'' md' =
           Some (JStr [CHR 0xE3, CHR 0x83, CHR 0x8E, CHR 0xE3, CHR 0x83, CHR 0xBC,
                       CHR 0xE3, CHR 0x83, CHR 0x9E, CHR 0xE3, CHR 0x83, CHR 0xAB]) \<and>
         style_name_of ''standard'' md' =
           Some (JStr [CHR 0xE9, CHR 0x80, CHR 0x9A, CHR 0xE5, CHR 0xB8, CHR 0xB8]) \<and>
         style_name_of ''high_tension'' md' =
           Some (JStr [CHR 0xE3, CHR 0x83, CHR 0x86, CHR 0xE3, CHR 0x83, CHR 0xB3,
                       CHR 0xE3, CHR 0x82, CHR 0xB7, CHR 0xE3, CHR 0x83, CHR 0xA7,
                       CHR 0xE3, CHR 0x83, CHR 0xB3, CHR 0xE9, CHR 0xAB, CHR 0x98,
                       CHR 0xE3, CHR 0x82, CHR 0x81]) \<and>
         style_name_of ''calm'' md' =
           Some (JStr [CHR 0xE8, CHR 0x90, CHR 0xBD, CHR 0xE3, CHR 0x81, CHR 0xA1,
                       CHR 0xE7, CHR 0x9D, CHR 0x80, CHR 0xE3, CHR 0x81, CHR 0x8D]) \<and>
         style_name_of ''cheerful'' md' =
           Some (JStr [CHR 0xE4, CHR 0xB8, CHR 0x8A, CHR 0xE6, CHR 0xA9, CHR 0x9F,
                       CHR 0xE5, CHR 0xAB, CHR 0x8C]) \<and>
         style_name_of ''emotional'' md' =
           Some (JStr [CHR 0xE6, CHR 0x80, CHR 0x92, CHR 0xE3, CHR 0x82, CHR 0x8A,
                       CHR 0xE3, CHR 0x83, CHR 0xBB, CHR 0xE6, CHR 0x82, CHR 0xB2,
                       CHR 0xE3, CHR 0x81, CHR 0x97, CHR 0xE3, CHR 0x81, CHR 0xBF])"
proof -
  have "style_name_of k md' =
          (case map_of (with_catalog self_styles (prior_styles md)) k of
             Some (JObj e) \<Rightarrow> map_of e ''name'' | _ \<Rightarrow> None)" for k
    by (simp add: style_name_of_def merged_styles [OF assms])
  then show ?thesis
    unfolding merged_lookup by (simp add: self_styles_def)
qed

theorem merge_display_names_witness:
  "add_styles_to_model example_config = Inr (projr (add_styles_to_model example_config)) \<and>
   style_name_of ''normal'' (projr (add_styles_to_model example_config)) =
     Some (JStr [CHR 0xE3, CHR 0x83, CHR 0x8E, CHR 0xE3, CHR 0x83, CHR 0xBC,
                 CHR 0xE3, CHR 0x83, CHR 0x9E, CHR 0xE3, CHR 0x83, CHR 0xAB]) \<and>
   style_name_of ''emotional'' (projr (add_styles_to_model example_config)) =
     Some (JStr [CHR 0xE6, CHR 0x80, CHR 0x92, CHR 0xE3, CHR 0x82, CHR 0x8A,
                 CHR 0xE3, CHR 0x83, CHR 0xBB, CHR 0xE6, CHR 0x82, CHR 0xB2,
                 CHR 0xE3, CHR 0x81, CHR 0x97, CHR 0xE3, CHR 0x81, CHR 0xBF])"
proof -
  have h: "add_styles_to_model example_config = Inr (projr (add_styles_to_model example_config))"
    by (simp add: example_merged)
  from merge_display_names [OF h] h show ?thesis by blast
qed

text \<open>
  C8 as stated fails: after the merge of the empty configuration, the name stored for
  \<^verbatim>\<open>normal\<close> is the Japanese word and not \<^verbatim>\<open>Normal\<close>.
\<close>

theorem merge_display_names_counterexample:
  "map_sum id (style_name_of ''normal'') (add_styles_to_model (JObj [])) =
     Inr (Some (JStr [CHR 0xE3, CHR 0x83, CHR 0x8E, CHR 0xE3, CHR 0x83, CHR 0xBC,
                      CHR 0xE3, CHR 0x83, CHR 0x9E, CHR 0xE3, CHR 0x83, CHR 0xAB])) \<and>
   map_sum id (style_name_of ''normal'') (add_styles_to_model (JObj [])) \<noteq>
     Inr (Some (JStr ''Normal''))"
proof -
  have "add_style_entries self_styles [(''styles'', JObj [])] =
        Inr [(''styles'', JObj (with_catalog self_styles []))]"
    by (simp add: add_style_entries_ok [where st = "[]"])
  then have "add_styles_to_model (JObj []) = Inr (JObj [(''styles'', JObj (with_catalog self_styles []))])"
    by (simp add: add_styles_to_model_def merge_config_def)
  then have "map_sum id (style_name_of ''normal'') (add_styles_to_model (JObj [])) =
     Inr (case map_of (with_catalog self_styles []) ''normal'' of
            Some (JObj e) \<Rightarrow> map_of e ''name'' | _ \<Rightarrow> None)"
    by (simp add: style_name_of_def config_styles_def get_config_def)
  then show ?thesis
    unfolding merged_lookup by (simp add: self_styles_def)
qed

section \<open>When the merge returns\<close>

lemma each_speaker_objects:
  "\<forall>s\<in>set sps. \<exists>d. s = JObj d \<Longrightarrow> \<exists>sps'. each_speaker sps = Inr sps'"
proof (induction sps)
  case Nil
  then show ?case by simp
next
  case (Cons s sps)
  then obtain d sps' where "s = JObj d" "each_speaker sps = Inr sps'" by auto
  then show ?case by (simp add: add_speaker_styles_def)
qed

lemma merge_config_returns:
  assumes "map_of c ''styles'' = None \<or> (\<exists>st. map_of c ''styles'' = Some (JObj st))"
    and "map_of c ''speakers'' = None \<or>
         (\<exists>sp sp'. map_of c ''speakers'' = Some sp \<and> for_speakers sp = Inr sp')"
  shows "\<exists>cfg'. merge_config (JObj c) = Inr cfg'"
proof -
  define c1 where "c1 = (if map_of c ''styles'' = None then dict_set ''styles'' (JObj []) c else c)"
  from assms(1) obtain st where st: "map_of c1 ''styles'' = Some (JObj st)"
    by (auto simp: c1_def map_of_dict_set)
  have sp: "map_of c1 ''speakers'' = map_of c ''speakers''"
    by (simp add: c1_def map_of_dict_set)
  from assms(2) show ?thesis
  proof
    assume "map_of c ''speakers'' = None"
    with sp show ?thesis
      by (simp add: merge_config_def c1_def [symmetric] add_style_entries_ok [OF st]
          map_of_dict_set)
  next
    assume "\<exists>sp sp'. map_of c ''speakers'' = Some sp \<and> for_speakers sp = Inr sp'"
    then obtain sp0 sp' where "map_of c ''speakers'' = Some sp0" "for_speakers sp0 = Inr sp'"
      by blast
    with sp show ?thesis
      by (simp add: merge_config_def c1_def [symmetric] add_style_entries_ok [OF st]
          map_of_dict_set)
  qed
qed

lemma add_styles_to_model_returns:
  assumes "get_config md = Inr cfg" and "merge_config cfg = Inr cfg'"
  shows "\<exists>md'. add_styles_to_model md = Inr md'"
proof -
  from assms(1) obtain m where m: "md = JObj m"
    by (cases md) (simp_all add: get_config_def)
  show ?thesis
  proof (cases "map_of m ''type'' = Some (JStr ''aivis'')")
    case True
    with assms(1) m have "map_of m ''config'' = Some cfg"
      by (simp add: get_config_def split: option.splits)
    with True m assms(2) show ?thesis by (simp add: add_styles_to_model_def)
  next
    case False
    with assms(1) m have "cfg = md" by (simp add: get_config_def)
    with False m assms(2) show ?thesis by (simp add: add_styles_to_model_def)
  qed
qed

section \<open>The claim about the speakers\<close>

lemma speakers_after_merge:
  assumes "add_styles_to_model md = Inr md'" and "config_speakers md = Some sps"
  shows "\<exists>sps'. config_speakers md' = Some sps' \<and> length sps' = length sps \<and>
           (\<forall>i<length sps.
              case sps ! i of
                JObj d \<Rightarrow>
                  (if map_of d ''styles'' = None
                   then sps' ! i =
                     JObj (d @ [(''styles'',
                       JArr [JStr ''normal'', JStr ''standard'', JStr ''high_tension'',
                             JStr ''calm'', JStr ''cheerful'', JStr ''emotional''])])
                   else sps' ! i = sps ! i)
              | _ \<Rightarrow> sps' ! i = sps ! i)"
proof -
  from add_styles_to_model_Inr [OF assms(1)] obtain cfg cfg' where g: "get_config md = Inr cfg"
    and m: "merge_config cfg = Inr cfg'" and g': "get_config md' = Inr cfg'"
    by blast
  from merge_config_Inr [OF m] obtain c c' where c: "cfg = JObj c" and c': "cfg' = JObj c'"
    and sp: "case map_of c ''speakers'' of
              None \<Rightarrow> map_of c' ''speakers'' = None
            | Some sp \<Rightarrow> \<exists>sp'. for_speakers sp = Inr sp' \<and> map_of c' ''speakers'' = Some sp'"
    by blast
  have "map_of c ''speakers'' = Some (JArr sps)"
    using assms(2) g c
    by (simp add: config_speakers_def split: option.splits json.splits)
  with sp obtain sp' where "for_speakers (JArr sps) = Inr sp'"
    and look: "map_of c' ''speakers'' = Some sp'"
    by auto
  then obtain sps' where sp': "sp' = JArr sps'" and each: "each_speaker sps = Inr sps'"
    by (auto elim: for_speakers_JArr)
  have all2: "list_all2 (\<lambda>s s'. add_speaker_styles s = Inr s') sps sps'"
    using each by (rule each_speaker_all2)
  have 1: "config_speakers md' = Some sps'"
    using g' c' look sp' by (simp add: config_speakers_def)
  have 2: "length sps' = length sps"
    using all2 by (simp add: list_all2_lengthD)
  have 3: "case sps ! i of
             JObj d \<Rightarrow>
               (if map_of d ''styles'' = None
                then sps' ! i =
                  JObj (d @ [(''styles'',
                    JArr [JStr ''normal'', JStr ''standard'', JStr ''high_tension'',
                          JStr ''calm'', JStr ''cheerful'', JStr ''emotional''])])
                else sps' ! i = sps ! i)
           | _ \<Rightarrow> sps' ! i = sps ! i" if "i < length sps" for i
  proof -
    from all2 that have "add_speaker_styles (sps ! i) = Inr (sps' ! i)"
      by (rule list_all2_nthD)
    then show ?thesis by (rule add_speaker_styles_Inr)
  qed
  from 1 2 3 show ?thesis by blast
qed


text \<open>
  C2. For every document whose configuration is a dictionary with a style table that is
  absent or a dictionary, and with a list of dictionaries under \<^verbatim>\<open>speakers\<close>, the
  merge returns; the list keeps its length; a speaker without \<^verbatim>\<open>styles\<close> gets the
  key at its end, with the six identifiers in catalog order, and nothing else about it
  changes; a speaker that has \<^verbatim>\<open>styles\<close> is left as it was.
\<close>

theorem merge_speaker_styles:
  assumes "get_config md = Inr (JObj c)"
    and "map_of c ''styles'' = None \<or> (\<exists>st. map_of c ''styles'' = Some (JObj st))"
    and "map_of c ''speakers'' = Some (JArr sps)"
    and "\<forall>s\<in>set sps. \<exists>d. s = JObj d"
  shows "\<exists>md' sps'. add_styles_to_model md = Inr md' \<and>
           config_speakers md' = Some sps' \<and> length sps' = length sps \<and>
           (\<forall>i<length sps. \<forall>d. sps ! i = JObj d \<longrightarrow>
              (if map_of d ''styles'' = None
               then sps' ! i =
                 JObj (d @ [(''styles'',
                   JArr [JStr ''normal'', JStr ''standard'', JStr ''high_tension'',
                         JStr ''calm'', JStr ''cheerful'', JStr ''emotional''])])
               else sps' ! i = sps ! i))"
proof -
  from each_speaker_objects [OF assms(4)] obtain sps0 where "each_speaker sps = Inr sps0" ..
  then have "for_speakers (JArr sps) = Inr (JArr sps0)"
    by (simp add: for_speakers_def)
  with assms(3) have "map_of c ''speakers'' = None \<or>
      (\<exists>sp sp'. map_of c ''speakers'' = Some sp \<and> for_speakers sp = Inr sp')"
    by blast
  with assms(2) obtain cfg' where "merge_config (JObj c) = Inr cfg'"
    using merge_config_returns by blast
  with assms(1) obtain md' where r: "add_styles_to_model md = Inr md'"
    using add_styles_to_model_returns by blast
  have s: "config_speakers md = Some sps"
    using assms(1,3) by (simp add: config_speakers_def)
  from speakers_after_merge [OF r s] obtain sps' where
    a: "config_speakers md' = Some sps'" and b: "length sps' = length sps"
    and c: "\<forall>i<length sps.
              case sps ! i of
                JObj d \<Rightarrow>
                  (if map_of d ''styles'' = None
                   then sps' ! i =
                     JObj (d @ [(''styles'',
                       JArr [JStr ''normal'', JStr ''standard'', JStr ''high_tension'',
                             JStr ''calm'', JStr ''cheerful'', JStr ''emotional''])])
                   else sps' ! i = sps ! i)
              | _ \<Rightarrow> sps' ! i = sps ! i"
    by blast
  have "\<forall>i<length sps. \<forall>d. sps ! i = JObj d \<longrightarrow>
              (if map_of d ''styles'' = None
               then sps' ! i =
                 JObj (d @ [(''styles'',
                   JArr [JStr ''normal'', JStr ''standard'', JStr ''high_tension'',
                         JStr ''calm'', JStr ''cheerful'', JStr ''emotional''])])
               else sps' ! i = sps ! i)"
  proof (intro allI impI)
    fix i d
    assume "i < length sps" "sps ! i = JObj d"
    with c show "if map_of d ''styles'' = None
               then sps' ! i =
                 JObj (d @ [(''styles'',
                   JArr [JStr ''normal'', JStr ''standard'', JStr ''high_tension'',
                         JStr ''calm'', JStr ''cheerful'', JStr ''emotional''])])
               else sps' ! i = sps ! i"
      by fastforce
  qed
  with r a b show ?thesis by blast
qed

theorem merge_speaker_styles_witness:
  "get_config example_config = Inr (JObj [(''speakers'', JArr [JObj [(''id'', JInt 1)]])]) \<and>
   map_of [(''speakers'', JArr [JObj [(''id'', JInt 1)]])] ''styles'' = None \<and>
   list_all (\<lambda>s. \<exists>d. s = JObj d) [JObj [(''id'', JInt 1)]] \<and>
   (\<exists>md'. add_styles_to_model example_config = Inr md' \<and>
      config_speakers md' =
        Some [JObj [(''id'', JInt 1),
                    (''styles'',
                     JArr [JStr ''normal'', JStr ''standard'', JStr ''high_tension'',
                           JStr ''calm'', JStr ''cheerful'', JStr ''emotional''])]])"
proof -
  let ?c = "[(''speakers'', JArr [JObj [(''id'', JInt 1)]])]"
  have 1: "get_config example_config = Inr (JObj ?c)"
    by (simp add: get_config_def example_config_def)
  have 2: "map_of ?c ''styles'' = None \<or> (\<exists>st. map_of ?c ''styles'' = Some (JObj st))"
    by simp
  have 3: "map_of ?c ''speakers'' = Some (JArr [JObj [(''id'', JInt 1)]])"
    by simp
  have 4: "\<forall>s\<in>set [JObj [(''id'', JInt 1)]]. \<exists>d. s = JObj d"
    by simp
  from merge_speaker_styles [OF 1 2 3 4] obtain md' sps' where
    r: "add_styles_to_model example_config = Inr md'"
    and a: "config_speakers md' = Some sps'" and b: "length sps' = 1"
    and c: "sps' ! 0 = JObj ([(''id'', JInt 1)] @ [(''styles'',
              JArr [JStr ''normal'', JStr ''standard'', JStr ''high_tension'',
                    JStr ''calm'', JStr ''cheerful'', JStr ''emotional''])])"
    by auto
  from b c have "sps' = [JObj [(''id'', JInt 1),
                 (''styles'',
                  JArr [JStr ''normal'', JStr ''standard'', JStr ''high_tension'',
                        JStr ''calm'', JStr ''cheerful'', JStr ''emotional''])]]"
    by (cases sps') simp_all
  with r a 1 show ?thesis by simp
qed

section \<open>The example runs\<close>

lemma path_of_examples:
  "path_of ''a.aivis'' = [''a.aivis'']" "path_of ''b.aivis'' = [''b.aivis'']"
  "path_of ''out/a_styled.aivis'' = [''out'', ''a_styled.aivis'']"
  "path_of ''model.json'' = [''model.json'']" "path_of ''out.json'' = [''out.json'']"
  "path_of ''model_styled.json'' = [''model_styled.json'']"
  "path_of ''temp_aivis_extract'' = [''temp_aivis_extract'']"
  by (simp_all add: path_of_def)

lemma load_a:
  "load_model ''a.aivis'' fs_archives = (Inr (packaged config_a), staged config_a ''weights of A'')"
  by (simp add: load_model_def endswith_def load_aivis_model_def load_aivis_try_def
      mkdir_exist_ok_def is_dir_def path_exists_def temp_dir_def read_file_def
      path_of_examples fs_archives_def extract_member_def open_w_def json_load_def
      packaged_def config_a_def staged_def)

lemma merge_a: "add_styles_to_model (packaged config_a) = Inr (packaged config_a_merged)"
proof -
  have "add_style_entries self_styles [(''name'', JStr ''A''), (''styles'', JObj [])] =
        Inr [(''name'', JStr ''A''), (''styles'', JObj (with_catalog self_styles []))]"
    by (simp add: add_style_entries_ok [where st = "[]"])
  then show ?thesis
    by (simp add: add_styles_to_model_def merge_config_def packaged_def config_a_def
        config_a_merged_def)
qed

lemma save_a_fails:
  "save_model (packaged config_a_merged) ''out/a_styled.aivis'' (staged config_a w) =
     (Inl (OSError ENOENT), staged config_a_merged w)"
  by (simp add: save_model_def save_aivis_model_def packaged_def path_of_examples
      open_w_def is_dir_def path_exists_def staged_def fs_archives_def)

lemma process_a:
  "process_file ''a.aivis'' ''out/a_styled.aivis'' fs_archives =
     (Inl (OSError ENOENT), staged config_a_merged ''weights of A'')"
  by (simp add: process_file_def load_a merge_a save_a_fails)

lemma load_b_stale:
  "load_model ''b.aivis'' (staged config_a_merged ''weights of A'') =
     (Inr (packaged config_a_merged), staged config_a_merged ''weights of B'')"
  by (simp add: load_model_def endswith_def load_aivis_model_def load_aivis_try_def
      mkdir_exist_ok_def is_dir_def path_exists_def temp_dir_def read_file_def
      path_of_examples fs_archives_def extract_member_def open_w_def json_load_def
      packaged_def staged_def)

lemma load_b_fresh: "load_model ''b.aivis'' fs_archives = (Inl MissingConfig, fs_archives)"
  by (simp add: load_model_def endswith_def load_aivis_model_def load_aivis_try_def
      mkdir_exist_ok_def is_dir_def path_exists_def temp_dir_def read_file_def
      path_of_examples fs_archives_def extract_member_def open_w_def rmtree_def under_def)

section \<open>The staging directory after a failed load\<close>

lemma under_append:
  assumes "under t p"
  shows "under t (p @ q)"
proof -
  from assms have t: "take (length t) p = t" by (simp add: under_def)
  then have "length (take (length t) p) = length t" by simp
  then have "length t \<le> length p" by simp
  with t show ?thesis by (simp add: under_def)
qed

lemma open_w_keeps_dir:
  "open_w p c fs = (r, fs') \<Longrightarrow> map_of fs q = Some Dir \<Longrightarrow> map_of fs' q = Some Dir"
  by (auto simp: open_w_def is_dir_def map_of_dict_set split: if_splits)

lemma open_w_untouched:
  "open_w p c fs = (r, fs') \<Longrightarrow> q \<noteq> p \<Longrightarrow> map_of fs' q = map_of fs q"
  by (auto simp: open_w_def map_of_dict_set split: if_splits)

lemma make_dirs_keeps_dir:
  "make_dirs base ns fs = (r, fs') \<Longrightarrow> map_of fs q = Some Dir \<Longrightarrow> map_of fs' q = Some Dir"
proof (induction base ns fs rule: make_dirs.induct)
  case (1 base fs)
  then show ?case by simp
next
  case (2 base n ns fs)
  show ?case
  proof (cases "map_of fs (base @ [n])")
    case None
    with 2 show ?thesis by (auto simp: map_of_dict_set)
  next
    case (Some node)
    with 2 show ?thesis by (cases node) auto
  qed
qed

lemma make_dirs_untouched:
  "make_dirs base ns fs = (r, fs') \<Longrightarrow> \<not> under t (base @ ns) \<Longrightarrow> map_of fs' t = map_of fs t"
proof (induction base ns fs rule: make_dirs.induct)
  case (1 base fs)
  then show ?case by simp
next
  case (2 base n ns fs)
  from "2.prems"(2) have ne: "t \<noteq> base @ [n]"
    using under_append [of t "base @ [n]" ns] by (auto simp: under_def)
  from "2.prems"(2) have nu: "\<not> under t ((base @ [n]) @ ns)" by simp
  show ?case
  proof (cases "map_of fs (base @ [n])")
    case None
    with 2 nu ne show ?thesis by (auto simp: map_of_dict_set)
  next
    case (Some node)
    with 2 nu show ?thesis by (cases node) auto
  qed
qed

lemma extract_member_keeps_dir:
  assumes "extract_member base member fs = (r, fs')" and "map_of fs q = Some Dir"
  shows "map_of fs' q = Some Dir"
proof -
  obtain r1 fs1 where m: "make_dirs base (butlast (fst member)) fs = (r1, fs1)"
    by (cases "make_dirs base (butlast (fst member)) fs")
  from make_dirs_keeps_dir [OF m assms(2)] have d: "map_of fs1 q = Some Dir" .
  show ?thesis
  proof (cases r1)
    case (Inl e)
    with assms(1) m d show ?thesis by (simp add: extract_member_def)
  next
    case (Inr u)
    with assms(1) m have "open_w (base @ fst member) (snd member) fs1 = (r, fs')"
      by (simp add: extract_member_def)
    from open_w_keeps_dir [OF this d] show ?thesis .
  qed
qed

lemma extract_member_untouched:
  assumes "extract_member base member fs = (r, fs')" and "\<not> under t (base @ fst member)"
  shows "map_of fs' t = map_of fs t"
proof -
  obtain r1 fs1 where m: "make_dirs base (butlast (fst member)) fs = (r1, fs1)"
    by (cases "make_dirs base (butlast (fst member)) fs")
  have "\<not> under t (base @ butlast (fst member))"
  proof (cases "fst member = []")
    case True
    with assms(2) show ?thesis by simp
  next
    case False
    show ?thesis
    proof
      assume "under t (base @ butlast (fst member))"
      then have "under t ((base @ butlast (fst member)) @ [last (fst member)])"
        by (rule under_append)
      with False assms(2) show False by simp
    qed
  qed
  from make_dirs_untouched [OF m this] have u: "map_of fs1 t = map_of fs t" .
  show ?thesis
  proof (cases r1)
    case (Inl e)
    with assms(1) m u show ?thesis by (simp add: extract_member_def)
  next
    case (Inr v)
    with assms(1) m have o: "open_w (base @ fst member) (snd member) fs1 = (r, fs')"
      by (simp add: extract_member_def)
    from assms(2) have "t \<noteq> base @ fst member" by (auto simp: under_def)
    from open_w_untouched [OF o this] u show ?thesis by simp
  qed
qed

lemma extractall_keeps_dir:
  "extractall base members fs = (r, fs') \<Longrightarrow> map_of fs q = Some Dir \<Longrightarrow>
   map_of fs' q = Some Dir"
proof (induction members arbitrary: fs)
  case Nil
  then show ?case by simp
next
  case (Cons member rest)
  obtain r1 fs1 where m: "extract_member base member fs = (r1, fs1)"
    by (cases "extract_member base member fs")
  from extract_member_keeps_dir [OF m Cons.prems(2)] have d: "map_of fs1 q = Some Dir" .
  show ?case
  proof (cases r1)
    case (Inl e)
    with Cons.prems(1) m d show ?thesis by simp
  next
    case (Inr u)
    with Cons.prems(1) m have "extractall base rest fs1 = (r, fs')" by simp
    from Cons.IH [OF this d] show ?thesis .
  qed
qed

lemma extractall_untouched:
  "extractall base members fs = (r, fs') \<Longrightarrow>
   list_all (\<lambda>member. \<not> under t (base @ fst member)) members \<Longrightarrow>
   map_of fs' t = map_of fs t"
proof (induction members arbitrary: fs)
  case Nil
  then show ?case by simp
next
  case (Cons member rest)
  obtain r1 fs1 where m: "extract_member base member fs = (r1, fs1)"
    by (cases "extract_member base member fs")
  from Cons.prems(2) have nu: "\<not> under t (base @ fst member)"
    and rest: "list_all (\<lambda>member. \<not> under t (base @ fst member)) rest"
    by simp_all
  from extract_member_untouched [OF m nu] have u: "map_of fs1 t = map_of fs t" .
  show ?case
  proof (cases r1)
    case (Inl e)
    with Cons.prems(1) m u show ?thesis by simp
  next
    case (Inr v)
    with Cons.prems(1) m have "extractall base rest fs1 = (r, fs')" by simp
    from Cons.IH [OF this rest] u show ?thesis by simp
  qed
qed

lemma load_aivis_try_keeps_dir:
  assumes "load_aivis_try model_path fs = (r, fs')" and "map_of fs q = Some Dir"
  shows "map_of fs' q = Some Dir"
proof (cases "read_file (path_of model_path) fs")
  case (Inl e)
  with assms show ?thesis by (simp add: load_aivis_try_def)
next
  case (Inr c)
  show ?thesis
  proof (cases c)
    case (Zip members)
    obtain r1 fs1 where x: "extractall temp_dir members fs = (r1, fs1)"
      by (cases "extractall temp_dir members fs")
    from extractall_keeps_dir [OF x assms(2)] have d: "map_of fs1 q = Some Dir" .
    have "fs' = fs1"
      using assms(1) Inr Zip x
      by (cases r1) (auto simp: load_aivis_try_def split: if_splits sum.splits)
    with d show ?thesis by simp
  qed (use assms Inr in \<open>simp_all add: load_aivis_try_def\<close>)
qed

lemma rmtree_removes:
  assumes "is_dir fs d" and "under d q"
  shows "map_of (rmtree d fs) q = None"
proof -
  have "map_of (filter (\<lambda>(p, _). \<not> under d p) fs) q = None"
    using assms(2) by (induction fs) auto
  with assms(1) show ?thesis by (simp add: rmtree_def)
qed

text \<open>
  When the load of an archive ends with an error and the staging path was not taken by
  a file, nothing is left at the staging path or below it.
\<close>

lemma load_aivis_model_failure_cleans:
  assumes "load_aivis_model model_path fs = (Inl e, fs')"
    and "\<forall>c. map_of fs temp_dir \<noteq> Some (File c)"
    and "under temp_dir q"
  shows "map_of fs' q = None"
proof -
  define fs1 where "fs1 = (if is_dir fs temp_dir then fs else dict_set temp_dir Dir fs)"
  have mk: "mkdir_exist_ok temp_dir fs = (Inr (), fs1)"
  proof (cases "map_of fs temp_dir")
    case None
    then show ?thesis
      by (simp add: mkdir_exist_ok_def is_dir_def path_exists_def temp_dir_def fs1_def)
  next
    case (Some node)
    with assms(2) have "node = Dir" by (cases node) simp_all
    with Some show ?thesis by (simp add: mkdir_exist_ok_def is_dir_def fs1_def)
  qed
  have d1: "map_of fs1 temp_dir = Some Dir"
    by (auto simp: fs1_def is_dir_def temp_dir_def map_of_dict_set)
  obtain r2 fs2 where t: "load_aivis_try model_path fs1 = (r2, fs2)"
    by (cases "load_aivis_try model_path fs1")
  from load_aivis_try_keeps_dir [OF t d1] have d2: "is_dir fs2 temp_dir"
    by (simp add: is_dir_def)
  from assms(1) mk t have "fs' = rmtree temp_dir fs2"
    by (cases r2) (simp_all add: load_aivis_model_def)
  with rmtree_removes [OF d2 assms(3)] show ?thesis by simp
qed

text \<open>
  When the staging directory holds no \<^verbatim>\<open>config.json\<close> before the load, and the
  archive has no member at or below that name and is extracted without error, the load
  ends with the error for the missing configuration and leaves nothing at the staging
  path or below it.
\<close>

lemma load_aivis_model_missing_config:
  assumes mk: "mkdir_exist_ok temp_dir fs = (Inr (), fs1)"
    and archive: "map_of fs (path_of model_path) = Some (File (Zip members))"
    and none: "map_of fs (temp_dir @ [''config.json'']) = None"
    and members: "list_all (\<lambda>member. take 1 (fst member) \<noteq> [''config.json'']) members"
    and x: "extractall temp_dir members fs1 = (Inr (), fs2)"
  shows "load_aivis_model model_path fs = (Inl MissingConfig, rmtree temp_dir fs2) \<and>
         (\<forall>q. under temp_dir q \<longrightarrow> map_of (rmtree temp_dir fs2) q = None)"
proof -
  from mk have nofile: "\<forall>c. map_of fs temp_dir \<noteq> Some (File c)"
    by (auto simp: mkdir_exist_ok_def is_dir_def path_exists_def temp_dir_def
        split: if_splits)
  with archive have ne: "path_of model_path \<noteq> temp_dir" by auto
  from mk have fs1: "fs1 = fs \<or> fs1 = dict_set temp_dir Dir fs"
    by (auto simp: mkdir_exist_ok_def split: if_splits)
  with ne archive have "map_of fs1 (path_of model_path) = Some (File (Zip members))"
    by (auto simp: map_of_dict_set)
  then have rd: "read_file (path_of model_path) fs1 = Inr (Zip members)"
    by (simp add: read_file_def)
  from fs1 none have c1: "map_of fs1 (temp_dir @ [''config.json'']) = None"
    by (auto simp: map_of_dict_set temp_dir_def)
  have "list_all (\<lambda>member. \<not> under (temp_dir @ [''config.json'']) (temp_dir @ fst member)) members"
    using members by (simp add: list_all_iff under_def temp_dir_def)
  from extractall_untouched [OF x this] c1
  have "map_of fs2 (temp_dir @ [''config.json'']) = None" by simp
  with mk rd x have l: "load_aivis_model model_path fs = (Inl MissingConfig, rmtree temp_dir fs2)"
    by (simp add: load_aivis_model_def load_aivis_try_def path_exists_def)
  from load_aivis_model_failure_cleans [OF l nofile] l show ?thesis by blast
qed

section \<open>The claims about loading and saving\<close>

text \<open>
  C7. A path that ends in neither \<^verbatim>\<open>.aivis\<close> nor \<^verbatim>\<open>.json\<close> is refused with the
  error for an unsupported format, and the file system is as it was: no file is
  written and no staging directory made.
\<close>

theorem load_model_unsupported:
  "\<not> endswith model_path ''.aivis'' \<Longrightarrow> \<not> endswith model_path ''.json'' \<Longrightarrow>
   load_model model_path fs = (Inl UnsupportedFormat, fs)"
  by (simp add: load_model_def)

theorem load_model_unsupported_witness:
  "\<not> endswith ''model.onnx'' ''.aivis'' \<and> \<not> endswith ''model.onnx'' ''.json'' \<and>
   load_model ''model.onnx'' fs_archives = (Inl UnsupportedFormat, fs_archives)"
proof -
  have 1: "\<not> endswith ''model.onnx'' ''.aivis''" by (simp add: endswith_def)
  have 2: "\<not> endswith ''model.onnx'' ''.json''" by (simp add: endswith_def)
  from 1 2 load_model_unsupported [OF 1 2, of fs_archives] show ?thesis by blast
qed

text \<open>
  C10. The tag that tells a packaged document from a plain one is a key of the document.
  The plain file \<^verbatim>\<open>model.json\<close> with the content \<^verbatim>\<open>{"type": "aivis"}\<close> loads as it
  is; the merge then takes the packaged path and raises the key error for
  \<^verbatim>\<open>config\<close>, and the save takes the packaged path and raises the key error for
  \<^verbatim>\<open>temp_dir\<close>, writing nothing. Lines 61 to 73 alone, which a plain document
  goes through, would have merged it.
\<close>

theorem tagged_plain_takes_packaged_path:
  "load_model ''model.json'' fs_tagged = (Inr tagged_plain, fs_tagged) \<and>
   add_styles_to_model tagged_plain = Inl (KeyError ''config'') \<and>
   save_model tagged_plain ''out.json'' fs_tagged = (Inl (KeyError ''temp_dir''), fs_tagged) \<and>
   merge_config tagged_plain =
     Inr (JObj [(''type'', JStr ''aivis''), (''styles'', JObj (with_catalog self_styles []))])"
proof -
  have "add_style_entries self_styles [(''type'', JStr ''aivis''), (''styles'', JObj [])] =
        Inr [(''type'', JStr ''aivis''), (''styles'', JObj (with_catalog self_styles []))]"
    by (simp add: add_style_entries_ok [where st = "[]"])
  then have "merge_config tagged_plain =
     Inr (JObj [(''type'', JStr ''aivis''), (''styles'', JObj (with_catalog self_styles []))])"
    by (simp add: merge_config_def tagged_plain_def)
  then show ?thesis
    by (simp add: load_model_def endswith_def path_of_examples read_file_def json_load_def
        fs_tagged_def tagged_plain_def add_styles_to_model_def save_model_def
        save_aivis_model_def)
qed

text \<open>
  C5 fails on the code. The archive \<^verbatim>\<open>a.aivis\<close> is loaded and merged, and saved to
  a path in a directory that does not exist: the archive cannot be created, the error
  leaves \<^verbatim>\<open>save_model\<close>, and the staging directory is still there with its files.
\<close>

theorem save_failure_keeps_staging:
  "save_model (packaged config_a_merged) ''out/a_styled.aivis'' (staged config_a ''weights of A'') =
     (Inl (OSError ENOENT), staged config_a_merged ''weights of A'') \<and>
   is_dir (staged config_a_merged ''weights of A'') temp_dir \<and>
   files_below temp_dir (staged config_a_merged ''weights of A'') =
     [([''config.json''], Text config_a_merged), ([''model.bin''], Raw ''weights of A'')]"
proof (intro conjI)
  show "save_model (packaged config_a_merged) ''out/a_styled.aivis''
          (staged config_a ''weights of A'') =
        (Inl (OSError ENOENT), staged config_a_merged ''weights of A'')"
    by (rule save_a_fails)
  show "is_dir (staged config_a_merged ''weights of A'') temp_dir"
    by (simp add: is_dir_def temp_dir_def staged_def fs_archives_def)
  show "files_below temp_dir (staged config_a_merged ''weights of A'') =
     [([''config.json''], Text config_a_merged), ([''model.bin''], Raw ''weights of A'')]"
    by (simp add: temp_dir_def staged_def fs_archives_def files_below_def under_def)
qed

text \<open>
  C6 fails on the code. In a clean working directory the archive \<^verbatim>\<open>b.aivis\<close>, which
  has no \<^verbatim>\<open>config.json\<close>, is refused and nothing is left behind. After the run on
  \<^verbatim>\<open>a.aivis\<close> that failed in the save, the staging directory still holds the
  \<^verbatim>\<open>config.json\<close> of \<^verbatim>\<open>a.aivis\<close>, and the load of \<^verbatim>\<open>b.aivis\<close> returns a document
  with that configuration and keeps the directory. What the code does as the claim says
  is in \<open>load_aivis_model_missing_config\<close> and \<open>load_aivis_model_failure_cleans\<close>.
\<close>

theorem stale_staging_hides_missing_config:
  "load_model ''b.aivis'' fs_archives = (Inl MissingConfig, fs_archives) \<and>
   load_model ''b.aivis'' (snd (process_file ''a.aivis'' ''out/a_styled.aivis'' fs_archives)) =
     (Inr (packaged config_a_merged), staged config_a_merged ''weights of B'')"
  by (simp add: load_b_fresh process_a load_b_stale)

section \<open>The round trip of a plain document\<close>

lemma endswith_json_not_aivis: "endswith p ''.json'' \<Longrightarrow> \<not> endswith p ''.aivis''"
  by (cases "rev p") (simp_all add: endswith_def)

lemma catalog_entries:
  "\<forall>(style_id, display, sp, pt, it, vo, em) \<in> set spec_table.
     \<exists>nm. map_of (with_catalog self_styles st) style_id =
       Some (JObj [(''name'', JStr nm),
                   (''parameters'',
                    JObj [(''speed'', JFloat sp), (''pitch'', JFloat pt),
                          (''intonation'', JFloat it), (''volume'', JFloat vo),
                          (''emotion_strength'', JFloat em)])])"
  unfolding merged_lookup
  by (simp add: spec_table_def self_styles_def param_of_def style_params_def params_def)

lemma catalog_others:
  "k \<notin> fst ` set spec_table \<Longrightarrow> map_of (with_catalog self_styles st) k = map_of st k"
  unfolding merged_lookup by (simp add: spec_table_def self_styles_def)

lemma open_w_Inr:
  assumes "open_w p c fs = (Inr u, fs')"
  shows "fs' = dict_set p (File c) fs"
  using assms by (simp add: open_w_def split: if_splits)

lemma process_example:
  "process_file ''model.json'' ''model_styled.json'' fs_example =
     (Inr (),
      fs_example @
      [([''model_styled.json''],
        File (Text (JObj [(''speakers'',
                 JArr [JObj [(''id'', JInt 1),
                             (''styles'',
                              JArr [JStr ''normal'', JStr ''standard'', JStr ''high_tension'',
                                    JStr ''calm'', JStr ''cheerful'', JStr ''emotional''])]]),
                (''styles'', JObj (with_catalog self_styles []))])))])"
proof -
  have l: "load_model ''model.json'' fs_example = (Inr example_config, fs_example)"
    by (simp add: load_model_def endswith_def path_of_examples read_file_def json_load_def
        fs_example_def)
  have s: "save_model
             (JObj [(''speakers'',
                 JArr [JObj [(''id'', JInt 1),
                             (''styles'',
                              JArr [JStr ''normal'', JStr ''standard'', JStr ''high_tension'',
                                    JStr ''calm'', JStr ''cheerful'', JStr ''emotional''])]]),
                (''styles'', JObj (with_catalog self_styles []))])
             ''model_styled.json'' fs_example =
           (Inr (),
            fs_example @
            [([''model_styled.json''],
              File (Text (JObj [(''speakers'',
                 JArr [JObj [(''id'', JInt 1),
                             (''styles'',
                              JArr [JStr ''normal'', JStr ''standard'', JStr ''high_tension'',
                                    JStr ''calm'', JStr ''cheerful'', JStr ''emotional''])]]),
                (''styles'', JObj (with_catalog self_styles []))])))])"
    by (simp add: save_model_def open_w_def is_dir_def path_of_examples fs_example_def)
  show ?thesis
    by (simp add: process_file_def l example_merged s)
qed

text \<open>
  C4, as the code has it. A plain JSON document whose \<^verbatim>\<open>type\<close> is not \<^verbatim>\<open>"aivis"\<close>
  is loaded, merged and saved to a path ending in \<^verbatim>\<open>.json\<close>, all without error.
  Loading the saved file gives back the merged document: every key other than
  \<^verbatim>\<open>styles\<close> and \<^verbatim>\<open>speakers\<close> has the value it had in the original, and the style
  table maps the six identifiers to the tabulated parameters and keeps every other
  style it had.
\<close>

theorem plain_round_trip:
  assumes "load_model input_file fs = (Inr X, fs1)"
    and "field ''type'' X \<noteq> Some (JStr ''aivis'')"
    and "process_file input_file output_file fs = (Inr (), fs2)"
    and "endswith output_file ''.json''"
  shows "\<exists>Y. load_model output_file fs2 = (Inr Y, fs2) \<and>
           (\<forall>k. k \<noteq> ''styles'' \<longrightarrow> k \<noteq> ''speakers'' \<longrightarrow> field k Y = field k X) \<and>
           (\<exists>st'. field ''styles'' Y = Some (JObj st') \<and>
              (\<forall>(style_id, display, sp, pt, it, vo, em) \<in> set spec_table.
                 \<exists>nm. map_of st' style_id =
                   Some (JObj [(''name'', JStr nm),
                               (''parameters'',
                                JObj [(''speed'', JFloat sp), (''pitch'', JFloat pt),
                                      (''intonation'', JFloat it), (''volume'', JFloat vo),
                                      (''emotion_strength'', JFloat em)])])) \<and>
              (\<forall>k. k \<notin> fst ` set spec_table \<longrightarrow> map_of st' k = map_of (prior_styles X) k))"
proof -
  from assms(1,3) obtain Y where add: "add_styles_to_model X = Inr Y"
    and save: "save_model Y output_file fs1 = (Inr (), fs2)"
    by (cases "add_styles_to_model X") (simp_all add: process_file_def)
  from add obtain m where m: "X = JObj m" and merge: "merge_config X = Inr Y"
    using assms(2) by (cases rule: add_styles_to_model_cases) (simp_all add: field_def)
  from merge_config_Inr [OF merge] m obtain c' where c': "Y = JObj c'"
    and st: "map_of c' ''styles'' = Some (JObj (with_catalog self_styles (styles_of m)))"
    and frame: "\<forall>k. k \<noteq> ''styles'' \<longrightarrow> k \<noteq> ''speakers'' \<longrightarrow> map_of c' k = map_of m k"
    by auto
  from frame have "map_of c' ''type'' = map_of m ''type''" by simp
  with assms(2) m have plain: "map_of c' ''type'' \<noteq> Some (JStr ''aivis'')"
    by (simp add: field_def)
  from save plain c' have "open_w (path_of output_file) (Text Y) fs1 = (Inr (), fs2)"
    by (simp add: save_model_def)
  then have fs2: "fs2 = dict_set (path_of output_file) (File (Text Y)) fs1"
    by (rule open_w_Inr)
  have 1: "load_model output_file fs2 = (Inr Y, fs2)"
    using assms(4) endswith_json_not_aivis [OF assms(4)]
    by (simp add: load_model_def read_file_def json_load_def fs2 map_of_dict_set)
  have 2: "\<forall>k. k \<noteq> ''styles'' \<longrightarrow> k \<noteq> ''speakers'' \<longrightarrow> field k Y = field k X"
    using frame by (simp add: field_def m c')
  have prior: "prior_styles X = styles_of m"
    using assms(2) m
    by (simp add: prior_styles_def config_styles_def get_config_def styles_of_def field_def
        split: option.splits json.splits)
  have 3: "field ''styles'' Y = Some (JObj (with_catalog self_styles (prior_styles X)))"
    using st by (simp add: field_def c' prior)
  from 1 2 3 catalog_entries [of "prior_styles X"] catalog_others [of _ "prior_styles X"]
  show ?thesis by blast
qed

theorem plain_round_trip_witness:
  "load_model ''model.json'' fs_example = (Inr example_config, fs_example) \<and>
   field ''type'' example_config \<noteq> Some (JStr ''aivis'') \<and>
   process_file ''model.json'' ''model_styled.json'' fs_example =
     (Inr (), snd (process_file ''model.json'' ''model_styled.json'' fs_example)) \<and>
   endswith ''model_styled.json'' ''.json'' \<and>
   (\<exists>Y. load_model ''model_styled.json''
             (snd (process_file ''model.json'' ''model_styled.json'' fs_example)) =
           (Inr Y, snd (process_file ''model.json'' ''model_styled.json'' fs_example)) \<and>
         field ''speakers'' Y =
           Some (JArr [JObj [(''id'', JInt 1),
                             (''styles'',
                              JArr [JStr ''normal'', JStr ''standard'', JStr ''high_tension'',
                                    JStr ''calm'', JStr ''cheerful'', JStr ''emotional''])]]) \<and>
         (\<exists>st'. field ''styles'' Y = Some (JObj st') \<and>
              (\<forall>(style_id, display, sp, pt, it, vo, em) \<in> set spec_table.
                 \<exists>nm. map_of st' style_id =
                   Some (JObj [(''name'', JStr nm),
                               (''parameters'',
                                JObj [(''speed'', JFloat sp), (''pitch'', JFloat pt),
                                      (''intonation'', JFloat it), (''volume'', JFloat vo),
                                      (''emotion_strength'', JFloat em)])]))))"
proof -
  let ?fs2 = "snd (process_file ''model.json'' ''model_styled.json'' fs_example)"
  have 1: "load_model ''model.json'' fs_example = (Inr example_config, fs_example)"
    by (simp add: load_model_def endswith_def path_of_examples read_file_def json_load_def
        fs_example_def)
  have 2: "field ''type'' example_config \<noteq> Some (JStr ''aivis'')"
    by (simp add: field_def example_config_def)
  have 3: "process_file ''model.json'' ''model_styled.json'' fs_example = (Inr (), ?fs2)"
    by (simp add: process_example)
  have 4: "endswith ''model_styled.json'' ''.json''"
    by (simp add: endswith_def)
  from plain_round_trip [OF 1 2 3 4] obtain Y st' where
    a: "load_model ''model_styled.json'' ?fs2 = (Inr Y, ?fs2)"
    and b: "field ''styles'' Y = Some (JObj st')"
    and c: "\<forall>(style_id, display, sp, pt, it, vo, em) \<in> set spec_table.
                 \<exists>nm. map_of st' style_id =
                   Some (JObj [(''name'', JStr nm),
                               (''parameters'',
                                JObj [(''speed'', JFloat sp), (''pitch'', JFloat pt),
                                      (''intonation'', JFloat it), (''volume'', JFloat vo),
                                      (''emotion_strength'', JFloat em)])])"
    by blast
  have "load_model ''model_styled.json'' ?fs2 =
          (Inr (JObj [(''speakers'',
                 JArr [JObj [(''id'', JInt 1),
                             (''styles'',
                              JArr [JStr ''normal'', JStr ''standard'', JStr ''high_tension'',
                                    JStr ''calm'', JStr ''cheerful'', JStr ''emotional''])]]),
                (''styles'', JObj (with_catalog self_styles []))]), ?fs2)"
    unfolding process_example
    by (simp add: load_model_def endswith_def path_of_examples read_file_def
        json_load_def fs_example_def)
  with a have d: "field ''speakers'' Y =
           Some (JArr [JObj [(''id'', JInt 1),
                             (''styles'',
                              JArr [JStr ''normal'', JStr ''standard'', JStr ''high_tension'',
                                    JStr ''calm'', JStr ''cheerful'', JStr ''emotional''])]])"
    by (auto simp: field_def)
  from 1 2 3 4 a b c d show ?thesis by blast
qed

text \<open>
  C4 as stated fails: the plain file \<^verbatim>\<open>model.json\<close> holding
  \<^verbatim>\<open>{"type": "aivis", "config": {}}\<close> loads as it is, the merge changes the value
  under \<^verbatim>\<open>config\<close> and gives the document no \<^verbatim>\<open>styles\<close>, and the run on the file
  ends with the key error for \<^verbatim>\<open>temp_dir\<close>, so that nothing is saved.
\<close>

theorem plain_round_trip_counterexample:
  "load_model ''model.json'' fs_tagged_config = (Inr tagged_config, fs_tagged_config) \<and>
   field ''config'' tagged_config = Some (JObj []) \<and>
   map_sum id (field ''config'') (add_styles_to_model tagged_config) =
     Inr (Some (JObj [(''styles'', JObj (with_catalog self_styles []))])) \<and>
   map_sum id (field ''styles'') (add_styles_to_model tagged_config) = Inr None \<and>
   process_file ''model.json'' ''out.json'' fs_tagged_config =
     (Inl (KeyError ''temp_dir''), fs_tagged_config)"
proof -
  have l: "load_model ''model.json'' fs_tagged_config = (Inr tagged_config, fs_tagged_config)"
    by (simp add: load_model_def endswith_def path_of_examples read_file_def json_load_def
        fs_tagged_config_def)
  have "add_style_entries self_styles [(''styles'', JObj [])] =
        Inr [(''styles'', JObj (with_catalog self_styles []))]"
    by (simp add: add_style_entries_ok [where st = "[]"])
  then have a: "add_styles_to_model tagged_config =
      Inr (JObj [(''type'', JStr ''aivis''),
                 (''config'', JObj [(''styles'', JObj (with_catalog self_styles []))])])"
    by (simp add: add_styles_to_model_def merge_config_def tagged_config_def)
  have p: "process_file ''model.json'' ''out.json'' fs_tagged_config =
     (Inl (KeyError ''temp_dir''), fs_tagged_config)"
    by (simp add: process_file_def l a save_model_def save_aivis_model_def)
  from l a p show ?thesis by (simp add: field_def tagged_config_def)
qed

end
